theory Spec2Isabelle
  imports Complex_Main "HOL-Library.AList" "HOL-Library.DAList" "HOL-Library.Multiset"
    "HOL-Library.Sublist"
begin

section \<open>Values shared by the ledger, the supervisor and the orchestrator\<close>

text \<open>
  The program keeps structured data as Python dictionaries and lists that it writes to
  SQLite through \<^verbatim>\<open>json.dumps\<close> and reads back with \<^verbatim>\<open>json.loads\<close>. The model
  keeps the decoded value: a dictionary is an association list in insertion order
  (\<open>AList.update\<close> overwrites in place or appends, as assignment to a Python dict key
  does), and \<open>map_of\<close> is key lookup. A \<open>JObj\<close> stands for a Python dictionary, whose
  keys are distinct. A character of the model is a code point below 256.
\<close>

datatype json =
    JNull
  | JBool bool
  | JInt int
  | JStr string
  | JList "json list"
  | JObj "(string \<times> json) list"

type_synonym dict = "(string \<times> json) list"

text \<open>
  Python exceptions that the modelled functions raise or let through, each with the
  text that \<^verbatim>\<open>str(e)\<close> gives.
\<close>

datatype exn =
    ValueError string
  | TypeError string
  | AttributeError string
  | KeyError string
  | OSError string

fun exn_str :: "exn \<Rightarrow> string" where
  "exn_str (ValueError m) = m"
| "exn_str (TypeError m) = m"
| "exn_str (AttributeError m) = m"
| "exn_str (KeyError m) = m"
| "exn_str (OSError m) = m"

text \<open>Decimal rendering of integers, as an f-string prints them.\<close>

function str_nat :: "nat \<Rightarrow> string" where
  "str_nat n =
     (if n < 10 then [''0123456789'' ! n]
      else str_nat (n div 10) @ [''0123456789'' ! (n mod 10)])"
  by pat_completeness auto
termination
  by (relation "measure (\<lambda>n. n)") auto

definition str_int :: "int \<Rightarrow> string" where
  "str_int i = (if i < 0 then CHR ''-'' # str_nat (nat (- i)) else str_nat (nat i))"

section \<open>Python operations on values\<close>

text \<open>
  The rule table of the orchestrator reads analyzer results with \<^verbatim>\<open>.get\<close>, \<^verbatim>\<open>[...]\<close>,
  \<^verbatim>\<open>for ... in\<close>, truth tests and f-strings. An analyzer may return any value, so each
  of these is modelled on every JSON value, with the exception it raises on the values
  it does not accept.
\<close>

fun type_name :: "json \<Rightarrow> string" where
  "type_name JNull = ''NoneType''"
| "type_name (JBool b) = ''bool''"
| "type_name (JInt i) = ''int''"
| "type_name (JStr s) = ''str''"
| "type_name (JList vs) = ''list''"
| "type_name (JObj kvs) = ''dict''"

text \<open>Python's truth value: \<^verbatim>\<open>None\<close>, \<^verbatim>\<open>False\<close>, 0 and empty containers are false.\<close>

fun json_truthy :: "json \<Rightarrow> bool" where
  "json_truthy JNull = False"
| "json_truthy (JBool b) = b"
| "json_truthy (JInt i) = (i \<noteq> 0)"
| "json_truthy (JStr s) = (s \<noteq> [])"
| "json_truthy (JList vs) = (vs \<noteq> [])"
| "json_truthy (JObj kvs) = (kvs \<noteq> [])"

text \<open>
  \<^verbatim>\<open>repr\<close> of a string: single quotes unless the text has a single and no double
  quote; backslash, the chosen quote, tab, newline and carriage return escaped; the
  other code points that are not printable (below 0x20, from 0x7F to 0xA0, and 0xAD) as
  \<^verbatim>\<open>\xNN\<close>.
\<close>

definition hex_digit :: "nat \<Rightarrow> char" where
  "hex_digit n = ''0123456789abcdef'' ! (n mod 16)"

definition py_escape :: "char \<Rightarrow> char \<Rightarrow> string" where
  "py_escape q c =
     (if c = CHR 0x5C then [CHR 0x5C, CHR 0x5C]
      else if c = q then [CHR 0x5C, q]
      else if c = CHR 0x09 then [CHR 0x5C, CHR ''t'']
      else if c = CHR 0x0A then [CHR 0x5C, CHR ''n'']
      else if c = CHR 0x0D then [CHR 0x5C, CHR ''r'']
      else if of_char c < (32 :: nat) \<or> (127 \<le> (of_char c :: nat) \<and> of_char c \<le> (160 :: nat))
              \<or> of_char c = (173 :: nat)
        then [CHR 0x5C, CHR ''x'', hex_digit (of_char c div 16), hex_digit (of_char c mod 16)]
      else [c])"

definition py_repr :: "string \<Rightarrow> string" where
  "py_repr s =
     (let q = (if CHR 0x27 \<in> set s \<and> CHR 0x22 \<notin> set s then CHR 0x22 else CHR 0x27)
      in q # concat (map (py_escape q) s) @ [q])"

text \<open>
  \<^verbatim>\<open>repr\<close> and \<^verbatim>\<open>str\<close> of a value; \<^verbatim>\<open>str\<close> differs from \<^verbatim>\<open>repr\<close> on a string only,
  which it leaves as it is. An f-string field \<^verbatim>\<open>{x}\<close> is \<^verbatim>\<open>str(x)\<close>.
\<close>

fun join :: "string \<Rightarrow> string list \<Rightarrow> string" where
  "join sep [] = []"
| "join sep [x] = x"
| "join sep (x # y # rest) = x @ sep @ join sep (y # rest)"

primrec py_repr_json :: "json \<Rightarrow> string" where
  "py_repr_json JNull = ''None''"
| "py_repr_json (JBool b) = (if b then ''True'' else ''False'')"
| "py_repr_json (JInt i) = str_int i"
| "py_repr_json (JStr s) = py_repr s"
| "py_repr_json (JList vs) = ''['' @ join '', '' (map py_repr_json vs) @ '']''"
| "py_repr_json (JObj kvs) =
     ''{'' @ join '', '' (map (\<lambda>(k, r). py_repr k @ '': '' @ r)
                           (map (map_prod id py_repr_json) kvs)) @ ''}''"

definition py_str :: "json \<Rightarrow> string" where
  "py_str v = (case v of JStr s \<Rightarrow> s | _ \<Rightarrow> py_repr_json v)"

text \<open>A type name in single quotes, as the messages of the interpreter show it.\<close>

definition quoted :: "string \<Rightarrow> string" where
  "quoted s = CHR 0x27 # s @ [CHR 0x27]"

text \<open>\<^verbatim>\<open>x.get(key, default)\<close>: only a dictionary has the method.\<close>

definition py_get :: "json \<Rightarrow> string \<Rightarrow> json \<Rightarrow> exn + json" where
  "py_get x key dflt =
     (case x of
        JObj d \<Rightarrow> Inr (case map_of d key of None \<Rightarrow> dflt | Some v \<Rightarrow> v)
      | _ \<Rightarrow> Inl (AttributeError
                   (quoted (type_name x) @ '' object has no attribute '' @ quoted ''get'')))"

text \<open>
  The items that \<^verbatim>\<open>for ... in x\<close> visits: the elements of a list, the keys of a
  dictionary, the characters of a string; any other value is not iterable. \<^verbatim>\<open>len(x)\<close>
  of a list, dictionary or string is the number of these items.
\<close>

definition py_iter :: "json \<Rightarrow> exn + json list" where
  "py_iter x =
     (case x of
        JList vs \<Rightarrow> Inr vs
      | JObj d \<Rightarrow> Inr (map (\<lambda>kv. JStr (fst kv)) d)
      | JStr s \<Rightarrow> Inr (map (\<lambda>c. JStr [c]) s)
      | _ \<Rightarrow> Inl (TypeError (quoted (type_name x) @ '' object is not iterable'')))"

text \<open>\<^verbatim>\<open>x[key]\<close> for a string key.\<close>

definition py_item :: "json \<Rightarrow> string \<Rightarrow> exn + json" where
  "py_item x key =
     (case x of
        JObj d \<Rightarrow> (case map_of d key of None \<Rightarrow> Inl (KeyError (py_repr key)) | Some v \<Rightarrow> Inr v)
      | JStr s \<Rightarrow> Inl (TypeError (''string indices must be integers, not '' @ quoted ''str''))
      | JList vs \<Rightarrow> Inl (TypeError ''list indices must be integers or slices, not str'')
      | _ \<Rightarrow> Inl (TypeError (quoted (type_name x) @ '' object is not subscriptable'')))"

text \<open>A list or a dictionary cannot be a member of a set.\<close>

definition py_unhashable :: "json \<Rightarrow> exn option" where
  "py_unhashable x =
     (case x of
        JList vs \<Rightarrow> Some (TypeError (''unhashable type: '' @ quoted ''list''))
      | JObj d \<Rightarrow> Some (TypeError (''unhashable type: '' @ quoted ''dict''))
      | _ \<Rightarrow> None)"

section \<open>The ledger: \<^verbatim>\<open>JobStore\<close> (ad\_command\_runner.py)\<close>

text \<open>
  One row of table \<^verbatim>\<open>jobs\<close> and one row of table \<^verbatim>\<open>outputs\<close>; the fields carry the
  column names with a prefix, since both tables have \<^verbatim>\<open>id\<close> and \<^verbatim>\<open>created_at\<close>.
  \<^verbatim>\<open>exit_code\<close> is a nullable INTEGER. The command is the decoded JSON list: the
  orchestrator puts values taken from analyzer results into it, which need not be
  strings.
\<close>

record job =
  j_id :: nat
  j_created_at :: real
  j_updated_at :: real
  j_name :: string
  j_command :: "json list"
  j_cwd :: string
  j_env :: "(string \<times> string) list"
  j_status :: string
  j_exit_code :: "int option"
  j_meta :: dict

record output_line =
  o_id :: nat
  o_job_id :: nat
  o_created_at :: real
  o_source :: string
  o_line :: string

text \<open>
  The database: both tables in insertion order and the two AUTOINCREMENT counters
  (the largest row id handed out so far). Every operation reads \<^verbatim>\<open>time.time()\<close>
  once; that reading is the parameter \<open>now\<close>.
\<close>

record job_store =
  jobs :: "job list"
  outputs :: "output_line list"
  jobs_seq :: nat
  outputs_seq :: nat

definition empty_store :: job_store where
  "empty_store = \<lparr> jobs = [], outputs = [], jobs_seq = 0, outputs_seq = 0 \<rparr>"

definition create_job ::
  "job_store \<Rightarrow> real \<Rightarrow> string \<Rightarrow> json list \<Rightarrow> string option \<Rightarrow>
   (string \<times> string) list option \<Rightarrow> dict option \<Rightarrow> nat \<times> job_store" where
  "create_job s now name command cwd env meta =
     (let new_id = Suc (jobs_seq s);
          row = \<lparr> j_id = new_id, j_created_at = now, j_updated_at = now, j_name = name,
                  j_command = command,
                  j_cwd = (case cwd of None \<Rightarrow> [] | Some d \<Rightarrow> d),
                  j_env = (case env of None \<Rightarrow> [] | Some e \<Rightarrow> e),
                  j_status = ''pending'', j_exit_code = None,
                  j_meta = (case meta of None \<Rightarrow> [] | Some m \<Rightarrow> m) \<rparr>
      in (new_id, s\<lparr> jobs := jobs s @ [row], jobs_seq := new_id \<rparr>))"

text \<open>
  \<^verbatim>\<open>UPDATE jobs SET status=?, exit_code=?, updated_at=?[, meta=?] WHERE id=?\<close>: the
  \<^verbatim>\<open>exit_code\<close> parameter (default \<^verbatim>\<open>None\<close>) is written in both branches, the meta
  column only when a meta is passed, and then it is the passed dictionary as a whole.
\<close>

definition update_job_status ::
  "job_store \<Rightarrow> real \<Rightarrow> nat \<Rightarrow> string \<Rightarrow> int option \<Rightarrow> dict option \<Rightarrow> job_store" where
  "update_job_status s now job_id status exit_code meta =
     s\<lparr> jobs :=
          map (\<lambda>j. if j_id j = job_id
                    then (case meta of
                            Some m \<Rightarrow> j\<lparr> j_status := status, j_exit_code := exit_code,
                                         j_updated_at := now, j_meta := m \<rparr>
                          | None \<Rightarrow> j\<lparr> j_status := status, j_exit_code := exit_code,
                                       j_updated_at := now \<rparr>)
                    else j)
              (jobs s) \<rparr>"

definition append_output :: "job_store \<Rightarrow> real \<Rightarrow> nat \<Rightarrow> string \<Rightarrow> string \<Rightarrow> job_store" where
  "append_output s now job_id source line =
     (let new_id = Suc (outputs_seq s)
      in s\<lparr> outputs := outputs s @
                 [\<lparr> o_id = new_id, o_job_id = job_id, o_created_at = now,
                    o_source = source, o_line = line \<rparr>],
             outputs_seq := new_id \<rparr>)"

definition get_job :: "job_store \<Rightarrow> nat \<Rightarrow> job option" where
  "get_job s job_id = find (\<lambda>j. j_id j = job_id) (jobs s)"

text \<open>
  \<^verbatim>\<open>fetch_outputs\<close>: the timestamp filter is guarded by \<^verbatim>\<open>if since:\<close>, the truth
  value of an optional float, so \<^verbatim>\<open>None\<close> and \<open>0\<close> both take the unfiltered query.
\<close>

definition since_truthy :: "real option \<Rightarrow> bool" where
  "since_truthy since = (case since of None \<Rightarrow> False | Some t \<Rightarrow> t \<noteq> 0)"

definition fetch_outputs :: "job_store \<Rightarrow> nat \<Rightarrow> real option \<Rightarrow> output_line list" where
  "fetch_outputs s job_id since =
     (if since_truthy since
      then sort_key o_id
             (filter (\<lambda>r. o_job_id r = job_id \<and> (case since of None \<Rightarrow> False | Some t \<Rightarrow> t < o_created_at r))
                (outputs s))
      else sort_key o_id (filter (\<lambda>r. o_job_id r = job_id) (outputs s)))"

text \<open>
  \<^verbatim>\<open>append_output\<close> is the only writer of table \<^verbatim>\<open>outputs\<close>, and it stamps each record
  with \<^verbatim>\<open>time.time()\<close>, the seconds since 1970: every record of a ledger that the
  program has built is stamped after the epoch.
\<close>

definition stamped_after_epoch :: "job_store \<Rightarrow> bool" where
  "stamped_after_epoch s = list_all (\<lambda>r. 0 < o_created_at r) (outputs s)"

text \<open>
  The merge that the specification describes for \<^verbatim>\<open>update_status\<close>, written from its
  words (new keys added, existing top-level keys overwritten, all others kept). It is
  not part of the program; it is what the stored meta is compared with.
\<close>

definition spec_shallow_merge :: "dict \<Rightarrow> dict \<Rightarrow> dict" where
  "spec_shallow_merge old new = fold (\<lambda>(k, v). AList.update k v) new old"

text \<open>Concrete ledgers used to evaluate the operations.\<close>

definition store_one_job :: job_store where
  "store_one_job =
     snd (create_job empty_store 100 ''probe'' [JStr ''echo'', JStr ''hi''] None None
            (Some [(''a'', JInt 1)]))"

definition store_two_lines :: job_store where
  "store_two_lines =
     append_output (append_output store_one_job 101 1 ''stdout'' ''first'') 102 1 ''stderr''
       ''second''"

section \<open>The process supervisor: \<^verbatim>\<open>CommandRunner.run_job\<close> (ad\_command\_runner.py)\<close>

text \<open>
  What the operating system does with one command is an input of the model. Spawning
  either raises \<^verbatim>\<open>FileNotFoundError\<close>, raises another exception (a file that is not
  executable gives \<^verbatim>\<open>PermissionError\<close>), or yields a process. A process is described
  by the lines its two pipes deliver, in arrival order and each with its arrival time in
  seconds after the spawn, the time at which both pipes have reached EOF, the time at
  which the process exits, and its exit code.
\<close>

datatype pipe = Stdout | Stderr

fun pipe_name :: "pipe \<Rightarrow> string" where
  "pipe_name Stdout = ''stdout''"
| "pipe_name Stderr = ''stderr''"

text \<open>
  \<open>p_sep_found\<close> says, for a line that exceeds the limit of the stream reader, whether
  its newline is in the reader's buffer when the limit is found exceeded; this depends
  on how the bytes are delivered, and it selects the message of the exception.
\<close>

record process =
  p_lines :: "(real \<times> pipe \<times> string) list"
  p_sep_found :: bool
  p_eof_at :: real
  p_exit_at :: real
  p_exit_code :: int

datatype spawn_result =
    FileNotFound
  | SpawnFailed string
  | Spawned process

type_synonym opsys =
  "string list \<Rightarrow> string option \<Rightarrow> (string \<times> string) list option \<Rightarrow> spawn_result"

text \<open>
  The calls \<^verbatim>\<open>run_job\<close> makes on the process handle. \<^verbatim>\<open>proc.kill()\<close> signals the
  child process alone; a signal to the whole process group is a different call
  (\<^verbatim>\<open>os.killpg\<close>), listed here so that its absence can be stated.
\<close>

datatype signal_target = Child_only | Process_group

datatype proc_call = Kill signal_target | Wait

record run_result =
  r_value :: "exn + int"
  r_store :: job_store
  r_calls :: "proc_call list"
  r_end :: real

text \<open>
  \<^verbatim>\<open>stream.readline()\<close> raises \<^verbatim>\<open>ValueError\<close> for a line of more than
  \<^verbatim>\<open>asyncio\<close>'s default limit of 64 KiB, counted in bytes without the newline. The
  bytes are the UTF-8 encoding of the line: one byte for a code point below 128, two
  for the others.
\<close>

definition stream_limit :: nat where
  "stream_limit = 65536"

definition utf8_length :: "string \<Rightarrow> nat" where
  "utf8_length s = length s + length (filter (\<lambda>c. 128 \<le> (of_char c :: nat)) s)"

definition limit_error :: "process \<Rightarrow> exn" where
  "limit_error p =
     ValueError (if p_sep_found p then ''Separator is found, but chunk is longer than limit''
                 else ''Separator is not found, and chunk exceed the limit'')"

text \<open>
  \<^verbatim>\<open>_read_stream\<close>, for both pipes at once: every line that arrives is appended to the
  ledger under the name of its pipe, stamped with its arrival time, up to the first line
  that exceeds the limit. There \<^verbatim>\<open>readline\<close> raises, which ends the
  \<^verbatim>\<open>gather\<close> of the two readers; the result is the time of that failure, if there is
  one, and the ledger at that time. (The reader of the other pipe is not cancelled and
  goes on appending the lines of its pipe after \<^verbatim>\<open>run_job\<close> has raised; those appends
  come after the state returned here. The mirror log file and the listeners receive the
  same lines; they do not touch the ledger and are left out.)
\<close>

fun read_streams ::
  "job_store \<Rightarrow> real \<Rightarrow> nat \<Rightarrow> (real \<times> pipe \<times> string) list \<Rightarrow> real option \<times> job_store" where
  "read_streams s t0 job_id [] = (None, s)"
| "read_streams s t0 job_id ((off, p, line) # rest) =
     (if stream_limit < utf8_length line then (Some (t0 + off), s)
      else read_streams (append_output s (t0 + off) job_id (pipe_name p) line) t0 job_id rest)"

text \<open>
  A command vector is a JSON list; \<^verbatim>\<open>create_subprocess_exec\<close> raises \<^verbatim>\<open>TypeError\<close> at
  the first element that is not a string, and for an empty vector.
\<close>

fun argv :: "json list \<Rightarrow> exn + string list" where
  "argv [] = Inr []"
| "argv (JStr a # rest) = (case argv rest of Inl e \<Rightarrow> Inl e | Inr args \<Rightarrow> Inr (a # args))"
| "argv (v # rest) =
     Inl (TypeError (''expected str, bytes or os.PathLike object, not '' @ type_name v))"

text \<open>
  The ways a spawned process ends inside \<^verbatim>\<open>run_job\<close>. A reader fails on a line over
  the limit: the \<^verbatim>\<open>ValueError\<close> is not caught, the job stays \<^verbatim>\<open>running\<close> and no call
  is made on the process handle. Both readers reach EOF: the exit code is awaited,
  however long that takes, and decides between \<^verbatim>\<open>finished\<close> and \<^verbatim>\<open>failed\<close>. Or
  \<^verbatim>\<open>wait_for\<close> raises \<^verbatim>\<open>TimeoutError\<close> after \<open>t\<close> seconds, with the lines that had
  arrived by then already stored.
\<close>

definition reader_failed :: "process \<Rightarrow> job_store \<Rightarrow> real \<Rightarrow> run_result" where
  "reader_failed p s2 t1 =
     \<lparr> r_value = Inl (limit_error p), r_store = s2, r_calls = [], r_end = t1 \<rparr>"

definition run_to_exit :: "job_store \<Rightarrow> real \<Rightarrow> nat \<Rightarrow> process \<Rightarrow> run_result" where
  "run_to_exit s1 t0 job_id p =
     (case read_streams s1 t0 job_id (p_lines p) of
        (Some t1, s2) \<Rightarrow> reader_failed p s2 t1
      | (None, s2) \<Rightarrow>
          (let t1 = t0 + max (p_eof_at p) (p_exit_at p);
               exit_code = p_exit_code p
           in \<lparr> r_value = Inr exit_code,
                r_store = update_job_status s2 t1 job_id
                            (if exit_code = 0 then ''finished'' else ''failed'') (Some exit_code) None,
                r_calls = [Wait],
                r_end = t1 \<rparr>))"

definition run_to_timeout :: "job_store \<Rightarrow> real \<Rightarrow> nat \<Rightarrow> process \<Rightarrow> int \<Rightarrow> run_result" where
  "run_to_timeout s1 t0 job_id p t =
     (case read_streams s1 t0 job_id
             (filter (\<lambda>(off, src, line). off < real_of_int t) (p_lines p)) of
        (Some t1, s2) \<Rightarrow> reader_failed p s2 t1
      | (None, s2) \<Rightarrow>
          (let t1 = t0 + max 0 (real_of_int t);
               s3 = append_output s2 t1 job_id ''system''
                      (''ERROR: timeout after '' @ str_int t @ ''s, killed process'')
           in \<lparr> r_value = Inr (- 1),
                r_store = update_job_status s3 t1 job_id ''timeout'' None None,
                r_calls = [Kill Child_only, Wait],
                r_end = t1 \<rparr>))"

text \<open>
  \<^verbatim>\<open>job['cwd'] or None\<close> and \<^verbatim>\<open>json.loads(job['env'] or '{}') or None\<close>.
\<close>

definition cwd_of :: "job \<Rightarrow> string option" where
  "cwd_of job = (if j_cwd job = [] then None else Some (j_cwd job))"

definition env_of :: "job \<Rightarrow> (string \<times> string) list option" where
  "env_of job = (if j_env job = [] then None else Some (j_env job))"

text \<open>
  \<^verbatim>\<open>run_job\<close>. The time limit covers the draining of the two pipes only
  (\<^verbatim>\<open>wait_for(gather(*readers), timeout)\<close>); it expires when \<open>t\<close> seconds pass before
  both pipes are at EOF. Only \<^verbatim>\<open>FileNotFoundError\<close> is caught at the spawn; any other
  exception leaves \<^verbatim>\<open>run_job\<close> with the job still marked \<^verbatim>\<open>running\<close>.
\<close>

definition run_job :: "opsys \<Rightarrow> job_store \<Rightarrow> real \<Rightarrow> nat \<Rightarrow> int option \<Rightarrow> run_result" where
  "run_job os s t0 job_id timeout =
     (case get_job s job_id of
        None \<Rightarrow>
          \<lparr> r_value = Inl (ValueError ''no such job''), r_store = s, r_calls = [], r_end = t0 \<rparr>
      | Some job \<Rightarrow>
          (let cwd = cwd_of job;
               env = env_of job;
               s1 = update_job_status s t0 job_id ''running'' None None
           in case argv (j_command job) of
                Inl e \<Rightarrow> \<lparr> r_value = Inl e, r_store = s1, r_calls = [], r_end = t0 \<rparr>
              | Inr [] \<Rightarrow>
                  \<lparr> r_value = Inl (TypeError
                       (''create_subprocess_exec() missing 1 required positional argument: '' @
                        quoted ''program'')),
                    r_store = s1, r_calls = [], r_end = t0 \<rparr>
              | Inr (prog # args) \<Rightarrow>
                  (case os (prog # args) cwd env of
                     FileNotFound \<Rightarrow>
                       (let s2 = append_output s1 t0 job_id ''system''
                                   (''ERROR: command not found: '' @ prog)
                        in \<lparr> r_value = Inr (- 1),
                             r_store = update_job_status s2 t0 job_id ''failed'' (Some (- 1)) None,
                             r_calls = [], r_end = t0 \<rparr>)
                   | SpawnFailed msg \<Rightarrow>
                       \<lparr> r_value = Inl (OSError msg), r_store = s1, r_calls = [], r_end = t0 \<rparr>
                   | Spawned p \<Rightarrow>
                       (case timeout of
                          None \<Rightarrow> run_to_exit s1 t0 job_id p
                        | Some t \<Rightarrow>
                            if real_of_int t \<le> p_eof_at p then run_to_timeout s1 t0 job_id p t
                            else run_to_exit s1 t0 job_id p))))"

section \<open>The orchestrator state (orchestrator\_and\_parsers.py)\<close>

text \<open>
  An analyzer maps the job's output records to a result or raises; returning \<^verbatim>\<open>None\<close>
  is \<open>Inr JNull\<close>. The registry is the dictionary \<^verbatim>\<open>parser_registry._parsers\<close> in
  registration order: an association list with distinct names.
\<close>

type_synonym analyzer = "output_line list \<Rightarrow> exn + json"

type_synonym registry = "(string, analyzer) alist"

record session =
  s_type :: string
  s_source_job :: nat
  s_details :: json
  s_first_seen :: real

text \<open>
  The orchestrator with the objects it owns: the ledger, the list of
  \<^verbatim>\<open>SessionStore.sessions\<close>, the flag \<^verbatim>\<open>auto_exploit.allow\<close>, the
  \<^verbatim>\<open>defaultdict(list)\<close> of dependencies, and the job ids passed to
  \<^verbatim>\<open>asyncio.create_task(self._run_and_process(job_id))\<close>, in order.
\<close>

record orchestrator =
  store :: job_store
  sessions :: "session list"
  auto_exploit :: bool
  dependencies :: "nat \<Rightarrow> nat list"
  tasks :: "nat list"

section \<open>The orchestrator: scheduling and the rule table\<close>

definition orchestrator_init :: "job_store \<Rightarrow> session list \<Rightarrow> orchestrator" where
  "orchestrator_init st ss =
     \<lparr> store = st, sessions = ss, auto_exploit = False, dependencies = (\<lambda>p. []), tasks = [] \<rparr>"

definition set_auto_exploit :: "orchestrator \<Rightarrow> bool \<Rightarrow> orchestrator" where
  "set_auto_exploit orch allow = orch\<lparr> auto_exploit := allow \<rparr>"

definition add_session :: "session list \<Rightarrow> real \<Rightarrow> string \<Rightarrow> nat \<Rightarrow> json \<Rightarrow> session list" where
  "add_session ss now kind source_job details =
     ss @ [\<lparr> s_type = kind, s_source_job = source_job, s_details = details, s_first_seen = now \<rparr>]"

text \<open>
  \<^verbatim>\<open>schedule_job\<close>: the dependency edge is guarded by \<^verbatim>\<open>if parent_job:\<close>, so a parent
  of \<^verbatim>\<open>None\<close> or 0 records none.
\<close>

definition schedule_job ::
  "orchestrator \<Rightarrow> real \<Rightarrow> string \<Rightarrow> json list \<Rightarrow> string option \<Rightarrow>
   (string \<times> string) list option \<Rightarrow> dict option \<Rightarrow> nat option \<Rightarrow> nat \<times> orchestrator" where
  "schedule_job orch now name command cwd env meta parent_job =
     (let (job_id, st) = create_job (store orch) now name command cwd env meta;
          deps = (case parent_job of
                    None \<Rightarrow> dependencies orch
                  | Some p \<Rightarrow>
                      if p \<noteq> 0 then (dependencies orch)(p := dependencies orch p @ [job_id])
                      else dependencies orch)
      in (job_id, orch\<lparr> store := st, dependencies := deps, tasks := tasks orch @ [job_id] \<rparr>))"

text \<open>
  A \<^verbatim>\<open>for\<close> loop whose body may raise: the loop ends at the first exception, in the
  state the body left. The first component of a result is the exception that escaped.
\<close>

fun for_each ::
  "('a \<Rightarrow> orchestrator \<Rightarrow> exn option \<times> orchestrator) \<Rightarrow> 'a list \<Rightarrow> orchestrator \<Rightarrow>
   exn option \<times> orchestrator" where
  "for_each body [] orch = (None, orch)"
| "for_each body (x # xs) orch =
     (case body x orch of
        (Some e, o1) \<Rightarrow> (Some e, o1)
      | (None, o1) \<Rightarrow> for_each body xs o1)"

definition ad_ports :: "int set" where
  "ad_ports = {88, 389, 636, 3268, 445}"

text \<open>
  \<^verbatim>\<open>{p['port'] for p in ... if p['state'] == 'open'}\<close>: for each item in turn the
  state is read and compared, and for an open one the port is read and put into the
  set. The result lists the members in the order they were added.
\<close>

fun open_ports :: "json list \<Rightarrow> exn + json list" where
  "open_ports [] = Inr []"
| "open_ports (p # ps) =
     (case py_item p ''state'' of
        Inl e \<Rightarrow> Inl e
      | Inr st \<Rightarrow>
          if st = JStr ''open'' then
            (case py_item p ''port'' of
               Inl e \<Rightarrow> Inl e
             | Inr port \<Rightarrow>
                 (case py_unhashable port of
                    Some e \<Rightarrow> Inl e
                  | None \<Rightarrow>
                      (case open_ports ps of
                         Inl e \<Rightarrow> Inl e
                       | Inr rest \<Rightarrow> Inr (port # rest))))
          else open_ports ps)"

text \<open>\<^verbatim>\<open>ports & ad_ports\<close> is not empty: some member is one of the five integers.\<close>

definition meets_ad_ports :: "json list \<Rightarrow> bool" where
  "meets_ad_ports ports = (\<exists>i \<in> ad_ports. JInt i \<in> set ports)"

text \<open>The body of the loop over the hosts of an \<^verbatim>\<open>nmap_xml\<close> result.\<close>

definition nmap_host_rule :: "nat \<Rightarrow> real \<Rightarrow> json \<Rightarrow> orchestrator \<Rightarrow> exn option \<times> orchestrator" where
  "nmap_host_rule job_id now host orch =
     (case py_get host ''ip'' JNull of
        Inl e \<Rightarrow> (Some e, orch)
      | Inr ip \<Rightarrow>
          (case py_get host ''ports'' (JList []) of
             Inl e \<Rightarrow> (Some e, orch)
           | Inr port_list \<Rightarrow>
               (case py_iter port_list of
                  Inl e \<Rightarrow> (Some e, orch)
                | Inr ps \<Rightarrow>
                    (case open_ports ps of
                       Inl e \<Rightarrow> (Some e, orch)
                     | Inr ports \<Rightarrow>
                         if meets_ad_ports ports then
                           (let meta = [(''target'', ip), (''triggered_by'', JInt (int job_id))];
                                o1 = snd (schedule_job orch now ''enum4linux''
                                            [JStr ''enum4linux-ng'', JStr ''-a'', ip]
                                            None None (Some meta) (Some job_id));
                                o2 = snd (schedule_job o1 now ''ldapdomaindump''
                                            [JStr ''ldapdomaindump'', ip]
                                            None None (Some meta) (Some job_id));
                                o3 = snd (schedule_job o2 now ''nmap_smb_scripts''
                                            [JStr ''nmap'', JStr ''-p'', JStr ''445'', JStr ''--script'',
                                             JStr ''smb-os-discovery,smb-enum-shares,smb-enum-users'',
                                             ip]
                                            None None (Some meta) (Some job_id));
                                o4 = snd (schedule_job o3 now ''getnpusers''
                                            [JStr ''python3'', JStr ''-m'',
                                             JStr ''impacket.examples.GetNPUsers'', JStr ''-no-pass'',
                                             ip]
                                            None None (Some meta) (Some job_id));
                                o5 = snd (schedule_job o4 now ''cme_scan''
                                            [JStr ''crackmapexec'', JStr ''smb'', ip, JStr ''--shares'',
                                             JStr ''--pass-pol'', JStr ''--local-auth'', JStr ''--json'']
                                            None None (Some meta) (Some job_id))
                            in (None, o5))
                         else (None, orch)))))"

text \<open>
  The three blocks of \<^verbatim>\<open>_apply_rules\<close>. Each reads the result stored under one
  analyzer name with \<^verbatim>\<open>parsed_results.get\<close> and does nothing when it is absent or
  false.
\<close>

definition nmap_rule ::
  "nat \<Rightarrow> real \<Rightarrow> (string \<times> json) list \<Rightarrow> orchestrator \<Rightarrow> exn option \<times> orchestrator" where
  "nmap_rule job_id now parsed_results orch =
     (case map_of parsed_results ''nmap_xml'' of
        None \<Rightarrow> (None, orch)
      | Some nmap \<Rightarrow>
          if json_truthy nmap then
            (case py_iter nmap of
               Inl e \<Rightarrow> (Some e, orch)
             | Inr hosts \<Rightarrow> for_each (nmap_host_rule job_id now) hosts orch)
          else (None, orch))"

definition getnp_rule ::
  "nat \<Rightarrow> real \<Rightarrow> (string \<times> json) list \<Rightarrow> orchestrator \<Rightarrow> exn option \<times> orchestrator" where
  "getnp_rule job_id now parsed_results orch =
     (case map_of parsed_results ''impacket_getnp'' of
        None \<Rightarrow> (None, orch)
      | Some getnp \<Rightarrow>
          if json_truthy getnp then
            (case py_get getnp ''asreps'' (JList []) of
               Inl e \<Rightarrow> (Some e, orch)
             | Inr asreps \<Rightarrow>
                 if json_truthy asreps then
                   (case py_iter asreps of
                      Inl e \<Rightarrow> (Some e, orch)
                    | Inr hs \<Rightarrow>
                        (let o1 = orch\<lparr> sessions :=
                                     fold (\<lambda>h ss. add_session ss now ''hash'' job_id h)
                                       hs (sessions orch) \<rparr>
                         in (None,
                             o1\<lparr> store := append_output (store o1) now job_id ''system''
                                            (''FOUND '' @ str_nat (length hs) @
                                             '' AS-REP hashes; stored in sessions'') \<rparr>)))
                 else (None, orch))
          else (None, orch))"

text \<open>
  \<^verbatim>\<open>_launch_exploits_for_cred\<close> returns without scheduling unless target, username and
  password are all true values. The target enters the command through an f-string.
\<close>

definition launch_exploits_for_cred ::
  "orchestrator \<Rightarrow> real \<Rightarrow> json \<Rightarrow> nat \<Rightarrow> exn option \<times> orchestrator" where
  "launch_exploits_for_cred orch now cred parent_job =
     (case py_get cred ''ip'' JNull of
        Inl e \<Rightarrow> (Some e, orch)
      | Inr target \<Rightarrow>
          (case py_get cred ''username'' JNull of
             Inl e \<Rightarrow> (Some e, orch)
           | Inr username \<Rightarrow>
               (case py_get cred ''password'' JNull of
                  Inl e \<Rightarrow> (Some e, orch)
                | Inr password \<Rightarrow>
                    if \<not> (json_truthy target \<and> json_truthy username \<and> json_truthy password)
                    then (None, orch)
                    else
                      (let meta = [(''target'', target), (''triggered_by'', JInt (int parent_job)),
                                   (''cred'', JObj [(''u'', username)])]
                       in (None,
                           snd (schedule_job orch now ''psexec''
                                  [JStr ''python3'', JStr ''-m'', JStr ''impacket.examples.psexec'',
                                   JStr (py_str target), username, password]
                                  None None (Some meta) (Some parent_job)))))))"

text \<open>The body of the loop over \<^verbatim>\<open>valid_credentials\<close>.\<close>

definition cred_rule :: "nat \<Rightarrow> real \<Rightarrow> json \<Rightarrow> orchestrator \<Rightarrow> exn option \<times> orchestrator" where
  "cred_rule job_id now cred orch =
     (let o1 = orch\<lparr> sessions := add_session (sessions orch) now ''cred'' job_id cred \<rparr>;
          o2 = o1\<lparr> store := append_output (store o1) now job_id ''system''
                              (''Valid credential found: '' @ py_str cred) \<rparr>
      in if auto_exploit o2 then launch_exploits_for_cred o2 now cred job_id else (None, o2))"

definition cme_rule ::
  "nat \<Rightarrow> real \<Rightarrow> (string \<times> json) list \<Rightarrow> orchestrator \<Rightarrow> exn option \<times> orchestrator" where
  "cme_rule job_id now parsed_results orch =
     (case map_of parsed_results ''crackmapexec_json'' of
        None \<Rightarrow> (None, orch)
      | Some cme \<Rightarrow>
          if json_truthy cme then
            (case py_get cme ''valid_credentials'' (JList []) of
               Inl e \<Rightarrow> (Some e, orch)
             | Inr creds \<Rightarrow>
                 (case py_iter creds of
                    Inl e \<Rightarrow> (Some e, orch)
                  | Inr cs \<Rightarrow> for_each (cred_rule job_id now) cs orch))
          else (None, orch))"

text \<open>
  \<^verbatim>\<open>_apply_rules\<close>: the three blocks in the order of the source; an exception raised
  in one of them ends the rule application.
\<close>

definition apply_rules ::
  "nat \<Rightarrow> real \<Rightarrow> (string \<times> json) list \<Rightarrow> orchestrator \<Rightarrow> exn option \<times> orchestrator" where
  "apply_rules job_id now parsed_results orch =
     (case nmap_rule job_id now parsed_results orch of
        (Some e, o1) \<Rightarrow> (Some e, o1)
      | (None, o1) \<Rightarrow>
          (case getnp_rule job_id now parsed_results o1 of
             (Some e, o2) \<Rightarrow> (Some e, o2)
           | (None, o2) \<Rightarrow> cme_rule job_id now parsed_results o2))"

section \<open>The orchestrator: running the analyzers\<close>

text \<open>
  \<^verbatim>\<open>meta.setdefault('parsers', {})[name] = pr\<close>: the item assignment raises
  \<^verbatim>\<open>TypeError\<close> when the meta already has a \<^verbatim>\<open>parsers\<close> entry that is not a dictionary.
\<close>

definition set_parser_result :: "dict \<Rightarrow> string \<Rightarrow> json \<Rightarrow> exn + dict" where
  "set_parser_result meta name v =
     (case map_of meta ''parsers'' of
        None \<Rightarrow> Inr (meta @ [(''parsers'', JObj [(name, v)])])
      | Some (JObj d) \<Rightarrow> Inr (AList.update ''parsers'' (JObj (AList.update name v d)) meta)
      | Some (JList vs) \<Rightarrow> Inl (TypeError ''list indices must be integers or slices, not str'')
      | Some other \<Rightarrow>
          Inl (TypeError (quoted (type_name other) @ '' object does not support item assignment'')))"

text \<open>
  The body of the loop over the registry in \<^verbatim>\<open>_run_and_process\<close>. An analyzer that
  raises gives a \<^verbatim>\<open>system\<close> line and no result. A true result is entered in
  \<^verbatim>\<open>parsed_results\<close> and written into the job's meta by reading the job, changing the
  meta and calling \<^verbatim>\<open>update_job_status(job_id, job['status'], meta=meta)\<close>, which
  passes no exit code. The first component of the result is an exception that the body
  does not catch.
\<close>

definition parser_step ::
  "nat \<Rightarrow> real \<Rightarrow> output_line list \<Rightarrow> string \<times> analyzer \<Rightarrow> (string \<times> json) list \<Rightarrow> job_store \<Rightarrow>
   exn option \<times> (string \<times> json) list \<times> job_store" where
  "parser_step job_id now outs entry parsed_results s =
     (let name = fst entry;
          parser = snd entry;
          (pr, s1) =
            (case parser outs of
               Inl e \<Rightarrow> (JNull,
                         append_output s now job_id ''system''
                           (''PARSER '' @ name @ '' ERROR: '' @ exn_str e))
             | Inr r \<Rightarrow> (r, s))
      in if json_truthy pr then
           (let parsed_results1 = AList.update name pr parsed_results
            in case get_job s1 job_id of
                 None \<Rightarrow>
                   (Some (AttributeError
                            (quoted ''NoneType'' @ '' object has no attribute '' @ quoted ''get'')),
                    parsed_results1, s1)
               | Some job \<Rightarrow>
                   (case set_parser_result (j_meta job) name pr of
                      Inl e \<Rightarrow> (Some e, parsed_results1, s1)
                    | Inr meta \<Rightarrow>
                        (None, parsed_results1,
                         update_job_status s1 now job_id (j_status job) None (Some meta))))
         else (None, parsed_results, s1))"

text \<open>The loop: it ends at the first exception that escapes the body.\<close>

fun run_parsers ::
  "nat \<Rightarrow> real \<Rightarrow> output_line list \<Rightarrow> (string \<times> analyzer) list \<Rightarrow> (string \<times> json) list \<Rightarrow>
   job_store \<Rightarrow> exn option \<times> (string \<times> json) list \<times> job_store" where
  "run_parsers job_id now outs [] parsed_results s = (None, parsed_results, s)"
| "run_parsers job_id now outs (entry # rest) parsed_results s =
     (case parser_step job_id now outs entry parsed_results s of
        (Some e, parsed_results1, s1) \<Rightarrow> (Some e, parsed_results1, s1)
      | (None, parsed_results1, s1) \<Rightarrow> run_parsers job_id now outs rest parsed_results1 s1)"

text \<open>
  \<^verbatim>\<open>_run_and_process\<close>: run the job with no time limit; on an exception record it and
  force \<^verbatim>\<open>failed\<close> (again with no exit code); otherwise fetch the outputs once, run the
  analyzers and apply the rules. The result carries the exception that ended the task,
  if any.
\<close>

definition run_and_process ::
  "opsys \<Rightarrow> registry \<Rightarrow> real \<Rightarrow> nat \<Rightarrow> orchestrator \<Rightarrow> exn option \<times> orchestrator" where
  "run_and_process os reg t0 job_id orch =
     (let r = run_job os (store orch) t0 job_id None;
          now = r_end r
      in case r_value r of
           Inl e \<Rightarrow>
             (let s1 = append_output (r_store r) now job_id ''system''
                         (''ERROR during run: '' @ exn_str e)
              in (None, orch\<lparr> store := update_job_status s1 now job_id ''failed'' None None \<rparr>))
         | Inr exit_code \<Rightarrow>
             (let outs = fetch_outputs (r_store r) job_id None;
                  (err, parsed_results, s2) =
                    run_parsers job_id now outs (DAList.impl_of reg) [] (r_store r)
              in case err of
                   Some e \<Rightarrow> (Some e, orch\<lparr> store := s2 \<rparr>)
                 | None \<Rightarrow> apply_rules job_id now parsed_results (orch\<lparr> store := s2 \<rparr>)))"

text \<open>\<^verbatim>\<open>parser_rdp_check\<close>, the last analyzer of the registry.\<close>

definition parser_rdp_check :: analyzer where
  "parser_rdp_check outs =
     (if list_ex (\<lambda>r. sublist ''Authentication only, exit status 0'' (o_line r)) outs
      then Inr (JObj [(''rdp_auth_success'', JBool True)])
      else Inr JNull)"

section \<open>The results that the shipped analyzers build\<close>

text \<open>
  \<^verbatim>\<open>parser_nmap_xml\<close> returns a list of \<^verbatim>\<open>{'ip', 'ports'}\<close> dictionaries, one for each
  host, with a \<^verbatim>\<open>{'port', 'state', 'service'}\<close> dictionary for each port: the port is
  an integer, the address, the state and the service are strings or \<^verbatim>\<open>None\<close>.
  \<^verbatim>\<open>parser_crackmapexec_json\<close> returns a dictionary that holds the credentials it
  found under \<^verbatim>\<open>valid_credentials\<close>: dictionaries with the keys \<^verbatim>\<open>ip\<close>,
  \<^verbatim>\<open>username\<close> and \<^verbatim>\<open>password\<close>, whose values come from the JSON that the tool
  printed.
\<close>

record port_entry =
  pt_port :: int
  pt_state :: "string option"
  pt_service :: "string option"

record host =
  h_ip :: "string option"
  h_ports :: "port_entry list"

definition opt_json :: "string option \<Rightarrow> json" where
  "opt_json v = (case v of None \<Rightarrow> JNull | Some s \<Rightarrow> JStr s)"

definition port_json :: "port_entry \<Rightarrow> json" where
  "port_json p =
     JObj [(''port'', JInt (pt_port p)), (''state'', opt_json (pt_state p)),
           (''service'', opt_json (pt_service p))]"

definition host_json :: "host \<Rightarrow> json" where
  "host_json h = JObj [(''ip'', opt_json (h_ip h)), (''ports'', JList (map port_json (h_ports h)))]"

definition nmap_result :: "host list \<Rightarrow> json" where
  "nmap_result hs = JList (map host_json hs)"

text \<open>
  The set of open ports of such a host: \<^verbatim>\<open>{p['port'] for p in host['ports'] if p['state'] == 'open'}\<close>.
\<close>

definition host_open_ports :: "host \<Rightarrow> int set" where
  "host_open_ports h = pt_port ` set (filter (\<lambda>p. pt_state p = Some ''open'') (h_ports h))"

text \<open>
  A credential is any dictionary; a key that it lacks reads as \<^verbatim>\<open>None\<close>. It is
  complete when target, user name and password are all true values.
\<close>

definition cred_field :: "dict \<Rightarrow> string \<Rightarrow> json" where
  "cred_field c key = (case map_of c key of None \<Rightarrow> JNull | Some v \<Rightarrow> v)"

definition cred_complete :: "dict \<Rightarrow> bool" where
  "cred_complete c =
     (json_truthy (cred_field c ''ip'') \<and> json_truthy (cred_field c ''username'')
      \<and> json_truthy (cred_field c ''password''))"

section \<open>Reading the state\<close>

text \<open>
  What the properties below read off a state: the jobs added between two states of the
  orchestrator, the columns of a job that scheduling decides, and the entry of an
  analyzer in a meta's \<^verbatim>\<open>parsers\<close> dictionary.
\<close>

definition scheduled :: "orchestrator \<Rightarrow> orchestrator \<Rightarrow> job list" where
  "scheduled before after = drop (length (jobs (store before))) (jobs (store after))"

type_synonym brief = "string \<times> json list \<times> dict \<times> string \<times> int option"

definition job_brief :: "job \<Rightarrow> brief" where
  "job_brief j = (j_name j, j_command j, j_meta j, j_status j, j_exit_code j)"

text \<open>The five enumeration jobs of the discovery rule, for one host address.\<close>

definition enum_batch :: "nat \<Rightarrow> json \<Rightarrow> brief list" where
  "enum_batch job_id ip =
     (let meta = [(''target'', ip), (''triggered_by'', JInt (int job_id))]
      in [(''enum4linux'', [JStr ''enum4linux-ng'', JStr ''-a'', ip], meta, ''pending'', None),
          (''ldapdomaindump'', [JStr ''ldapdomaindump'', ip], meta, ''pending'', None),
          (''nmap_smb_scripts'',
           [JStr ''nmap'', JStr ''-p'', JStr ''445'', JStr ''--script'',
            JStr ''smb-os-discovery,smb-enum-shares,smb-enum-users'', ip],
           meta, ''pending'', None),
          (''getnpusers'',
           [JStr ''python3'', JStr ''-m'', JStr ''impacket.examples.GetNPUsers'',
            JStr ''-no-pass'', ip],
           meta, ''pending'', None),
          (''cme_scan'',
           [JStr ''crackmapexec'', JStr ''smb'', ip, JStr ''--shares'', JStr ''--pass-pol'',
            JStr ''--local-auth'', JStr ''--json''],
           meta, ''pending'', None)])"

text \<open>The exploitation job of the credential rule and the session of a credential.\<close>

definition exploit_brief :: "nat \<Rightarrow> dict \<Rightarrow> brief" where
  "exploit_brief job_id c =
     (''psexec'',
      [JStr ''python3'', JStr ''-m'', JStr ''impacket.examples.psexec'',
       JStr (py_str (cred_field c ''ip'')), cred_field c ''username'', cred_field c ''password''],
      [(''target'', cred_field c ''ip''), (''triggered_by'', JInt (int job_id)),
       (''cred'', JObj [(''u'', cred_field c ''username'')])],
      ''pending'', None)"

definition cred_session :: "nat \<Rightarrow> real \<Rightarrow> dict \<Rightarrow> session" where
  "cred_session job_id now c =
     \<lparr> s_type = ''cred'', s_source_job = job_id, s_details = JObj c, s_first_seen = now \<rparr>"

text \<open>
  Between two states of the orchestrator only jobs were scheduled: the ledger has the
  jobs it had, followed by new ones that all satisfy \<open>Q\<close>; each new job was handed to
  the event loop and recorded as a child of job \<open>job_id\<close>; the gate is as it was.
\<close>

definition adds_jobs :: "nat \<Rightarrow> (job \<Rightarrow> bool) \<Rightarrow> orchestrator \<Rightarrow> orchestrator \<Rightarrow> bool" where
  "adds_jobs job_id Q before after =
     (take (length (jobs (store before))) (jobs (store after)) = jobs (store before)
      \<and> length (jobs (store before)) \<le> length (jobs (store after))
      \<and> list_all Q (scheduled before after)
      \<and> tasks after = tasks before @ map j_id (scheduled before after)
      \<and> dependencies after job_id =
          dependencies before job_id @ map j_id (scheduled before after)
      \<and> auto_exploit after = auto_exploit before)"

definition parsers_slot_ok :: "dict \<Rightarrow> bool" where
  "parsers_slot_ok meta =
     (case map_of meta ''parsers'' of None \<Rightarrow> True | Some (JObj d) \<Rightarrow> True | Some other \<Rightarrow> False)"

definition parser_entry :: "dict \<Rightarrow> string \<Rightarrow> json option" where
  "parser_entry meta name =
     (case map_of meta ''parsers'' of Some (JObj d) \<Rightarrow> map_of d name | _ \<Rightarrow> None)"

definition system_line :: "job_store \<Rightarrow> nat \<Rightarrow> string \<Rightarrow> bool" where
  "system_line s job_id line =
     list_ex (\<lambda>r. o_job_id r = job_id \<and> o_source r = ''system'' \<and> o_line r = line) (outputs s)"

text \<open>The \<^verbatim>\<open>system\<close> lines appended to the ledger between two of its states.\<close>

definition new_system_lines :: "job_store \<Rightarrow> job_store \<Rightarrow> (nat \<times> string) list" where
  "new_system_lines before after =
     map (\<lambda>r. (o_job_id r, o_line r))
       (filter (\<lambda>r. o_source r = ''system'') (drop (length (outputs before)) (outputs after)))"

text \<open>A ledger that has only grown: rows were appended to both tables, none changed.\<close>

definition store_extends :: "job_store \<Rightarrow> job_store \<Rightarrow> bool" where
  "store_extends s s' = (prefix (jobs s) (jobs s') \<and> prefix (outputs s) (outputs s'))"



section \<open>Concrete runs\<close>

text \<open>
  A job that sleeps for a minute and prints one line after half a second, and an
  operating system that runs it; a process that closes both pipes after one second and
  goes on for a minute; a process that prints a line of 65537 characters after one
  second; an operating system that finds no such command; one that finds the file but
  may not execute it.
\<close>

definition store_sleep_job :: job_store where
  "store_sleep_job =
     snd (create_job empty_store 100 ''nap'' [JStr ''sleep'', JStr ''60''] None None None)"




definition os_not_found :: opsys where
  "os_not_found cmd cwd env = FileNotFound"

definition os_denied :: opsys where
  "os_denied cmd cwd env = SpawnFailed ''[Errno 13] Permission denied''"

text \<open>
  A discovery result with two hosts: one with ports 445 and 80 open, one whose only
  open port is 22. Two credentials, the second without a password. An orchestrator over
  the ledger \<open>store_one_job\<close> as constructed, and the same with the gate enabled.
\<close>

definition hostA :: host where
  "hostA =
     \<lparr> h_ip = Some ''10.0.0.5'',
       h_ports = [\<lparr> pt_port = 445, pt_state = Some ''open'', pt_service = Some ''microsoft-ds'' \<rparr>,
                  \<lparr> pt_port = 80, pt_state = Some ''open'', pt_service = Some ''http'' \<rparr>] \<rparr>"

definition hostB :: host where
  "hostB =
     \<lparr> h_ip = Some ''10.0.0.9'',
       h_ports = [\<lparr> pt_port = 445, pt_state = Some ''closed'', pt_service = None \<rparr>,
                  \<lparr> pt_port = 22, pt_state = Some ''open'', pt_service = Some ''ssh'' \<rparr>] \<rparr>"

definition credA :: dict where
  "credA = [(''ip'', JStr ''10.0.0.5''), (''username'', JStr ''admin''),
            (''password'', JStr ''Passw0rd'')]"

definition credB :: dict where
  "credB = [(''ip'', JStr ''10.0.0.5''), (''username'', JStr ''svc''), (''password'', JNull)]"

definition orch_off :: orchestrator where
  "orch_off = orchestrator_init store_one_job []"

definition orch_on :: orchestrator where
  "orch_on = set_auto_exploit (orchestrator_init store_one_job []) True"

text \<open>
  The analyzer results of a job: the discovery result alone; one credential under
  \<^verbatim>\<open>crackmapexec_json\<close>; and the complete credential together with a dictionary under
  \<^verbatim>\<open>nmap_xml\<close>, which is not what the discovery rule expects there.
\<close>

definition results_nmap :: "(string \<times> json) list" where
  "results_nmap = [(''nmap_xml'', nmap_result [hostA, hostB])]"

definition results_cred :: "dict \<Rightarrow> (string \<times> json) list" where
  "results_cred c = [(''crackmapexec_json'', JObj [(''valid_credentials'', JList [JObj c])])]"

definition results_odd_nmap :: "(string \<times> json) list" where
  "results_odd_nmap =
     [(''nmap_xml'', JObj [(''error'', JStr ''no hosts'')]),
      (''crackmapexec_json'', JObj [(''valid_credentials'', JList [JObj credA])])]"

text \<open>
  A job whose command prints the line that \<^verbatim>\<open>parser_rdp_check\<close> looks for and exits
  with code 0; the same job created with a string under \<^verbatim>\<open>parsers\<close> in its meta; a
  registry that holds \<^verbatim>\<open>parser_rdp_check\<close> alone, and one that holds an analyzer
  raising on every input in front of it.
\<close>

definition store_rdp_job :: job_store where
  "store_rdp_job =
     snd (create_job empty_store 100 ''rdp''
            [JStr ''xfreerdp'', JStr ''/v:10.0.0.5'', JStr ''+auth-only''] None None
            (Some [(''phase'', JStr ''check'')]))"

definition store_tagged_job :: job_store where
  "store_tagged_job =
     snd (create_job empty_store 100 ''rdp''
            [JStr ''xfreerdp'', JStr ''/v:10.0.0.5'', JStr ''+auth-only''] None None
            (Some [(''parsers'', JStr ''rdp_check'')]))"

definition os_rdp :: opsys where
  "os_rdp cmd cwd env =
     Spawned \<lparr> p_lines = [(1, Stderr, ''Authentication only, exit status 0'')],
               p_sep_found = True, p_eof_at = 2, p_exit_at = 2, p_exit_code = 0 \<rparr>"

definition parser_raising :: analyzer where
  "parser_raising outs = Inl (ValueError ''bad input'')"

definition registry_rdp :: registry where
  "registry_rdp = Alist [(''rdp_check'', parser_rdp_check)]"

definition registry_demo :: registry where
  "registry_demo = Alist [(''broken'', parser_raising), (''rdp_check'', parser_rdp_check)]"

definition orch_rdp :: orchestrator where
  "orch_rdp = orchestrator_init store_rdp_job []"

definition orch_tagged :: orchestrator where
  "orch_tagged = orchestrator_init store_tagged_job []"

section \<open>Properties of the ledger\<close>

lemma find_map_same_id:
  assumes "\<And>j. j_id (g j) = j_id j"
  shows "find (\<lambda>j. j_id j = k) (map (\<lambda>j. if j_id j = k then g j else j) xs) =
         map_option g (find (\<lambda>j. j_id j = k) xs)"
  using assms by (induction xs) auto

lemma get_job_update_job_status:
  "get_job (update_job_status s now job_id status exit_code meta) job_id =
     map_option
       (\<lambda>j. case meta of
              Some m \<Rightarrow> j\<lparr> j_status := status, j_exit_code := exit_code,
                           j_updated_at := now, j_meta := m \<rparr>
            | None \<Rightarrow> j\<lparr> j_status := status, j_exit_code := exit_code,
                         j_updated_at := now \<rparr>)
       (get_job s job_id)"
  unfolding get_job_def update_job_status_def
  by (cases meta) (simp_all add: find_map_same_id)

lemma sorted_fetch_outputs: "sorted (map o_id (fetch_outputs s job_id since))"
  by (simp add: fetch_outputs_def)

lemma mset_fetch_outputs_None:
  "mset (fetch_outputs s job_id None) = filter_mset (\<lambda>r. o_job_id r = job_id) (mset (outputs s))"
  by (simp add: fetch_outputs_def since_truthy_def)

lemma mset_fetch_outputs_Some:
  "mset (fetch_outputs s job_id (Some t)) =
     filter_mset (\<lambda>r. o_job_id r = job_id \<and> (t = 0 \<or> t < o_created_at r)) (mset (outputs s))"
  by (simp add: fetch_outputs_def since_truthy_def)

text \<open>The ids that \<^verbatim>\<open>create_job\<close> hands out start at 1.\<close>

lemma create_job_id_positive: "fst (create_job s now name command cwd env meta) \<noteq> 0"
  by (simp add: create_job_def Let_def)

text \<open>
  Every ledger that the operations build from the empty one, at clock readings after
  the epoch, has all its output records stamped after the epoch.
\<close>

lemma stamped_after_epoch_empty_store: "stamped_after_epoch empty_store"
  by (simp add: stamped_after_epoch_def empty_store_def)

lemma stamped_after_epoch_create_job:
  "stamped_after_epoch (snd (create_job s now name command cwd env meta)) = stamped_after_epoch s"
  by (simp add: stamped_after_epoch_def create_job_def Let_def)

lemma stamped_after_epoch_update_job_status:
  "stamped_after_epoch (update_job_status s now job_id status exit_code meta) =
     stamped_after_epoch s"
  by (simp add: stamped_after_epoch_def update_job_status_def)

lemma stamped_after_epoch_append_output:
  "0 < now \<Longrightarrow> stamped_after_epoch s \<Longrightarrow>
     stamped_after_epoch (append_output s now job_id source line)"
  by (simp add: stamped_after_epoch_def append_output_def Let_def)

text \<open>
  C3, as the program has it. \<^verbatim>\<open>update_job_status\<close> called with a meta mapping stores
  that mapping itself: a key that was absent is added and a key present in both takes
  the new value, but a key that the new mapping does not mention is dropped, because the
  column is overwritten as a whole; \<^verbatim>\<open>updated_at\<close> becomes the current time.
\<close>

theorem update_job_status_stores_meta:
  assumes "get_job s job_id = Some j"
  shows "map_option j_meta (get_job (update_job_status s now job_id status exit_code (Some m)) job_id)
           = Some m
         \<and> map_option j_updated_at
             (get_job (update_job_status s now job_id status exit_code (Some m)) job_id)
           = Some now"
  using assms by (simp add: get_job_update_job_status)

text \<open>
  The job of \<open>store_one_job\<close> has meta \<^verbatim>\<open>{'a': 1}\<close>; updating it with \<^verbatim>\<open>{'b': 2}\<close> at
  time 200 stores \<^verbatim>\<open>{'b': 2}\<close> and the new time stamp.
\<close>

theorem update_job_status_stores_meta_witness:
  "map_option j_meta (get_job store_one_job 1) = Some [(''a'', JInt 1)]
   \<and> map_option j_meta
       (get_job (update_job_status store_one_job 200 1 ''running'' None (Some [(''b'', JInt 2)])) 1)
     = Some [(''b'', JInt 2)]
   \<and> map_option j_updated_at
       (get_job (update_job_status store_one_job 200 1 ''running'' None (Some [(''b'', JInt 2)])) 1)
     = Some 200"
proof -
  have found: "get_job store_one_job 1 =
      Some \<lparr> j_id = 1, j_created_at = 100, j_updated_at = 100, j_name = ''probe'',
             j_command = [JStr ''echo'', JStr ''hi''], j_cwd = [], j_env = [], j_status = ''pending'',
             j_exit_code = None, j_meta = [(''a'', JInt 1)] \<rparr>"
    by (simp add: store_one_job_def create_job_def empty_store_def get_job_def)
  show ?thesis
    using update_job_status_stores_meta [OF found, of 200 "''running''" None "[(''b'', JInt 2)]"]
      found
    by simp
qed

text \<open>
  C3 as the specification words it (a shallow merge) fails: after the same update the
  merge would still hold key \<^verbatim>\<open>a\<close>, the stored meta does not.
\<close>

theorem update_job_status_merge_counterexample:
  "map_option j_meta (get_job store_one_job 1) = Some [(''a'', JInt 1)]
   \<and> spec_shallow_merge [(''a'', JInt 1)] [(''b'', JInt 2)] = [(''a'', JInt 1), (''b'', JInt 2)]
   \<and> map_option j_meta
       (get_job (update_job_status store_one_job 200 1 ''running'' None (Some [(''b'', JInt 2)])) 1)
     \<noteq> Some (spec_shallow_merge [(''a'', JInt 1)] [(''b'', JInt 2)])"
  by (simp add: store_one_job_def create_job_def empty_store_def get_job_def
      update_job_status_def spec_shallow_merge_def)

text \<open>
  C8. In a ledger whose records are stamped after the epoch, as every ledger built by
  the program is, \<^verbatim>\<open>fetch_outputs\<close> returns the job's records in ascending id order;
  with no \<^verbatim>\<open>since\<close> they are all of the job's records, and with a \<^verbatim>\<open>since\<close>, whatever
  its value, they are exactly the job's records created strictly after it. (A
  \<^verbatim>\<open>since\<close> of 0 takes the unfiltered query, which returns the same records, all of
  them being stamped after 0.)
\<close>

theorem fetch_outputs_ascending_filtered:
  assumes "stamped_after_epoch s"
  shows "sorted (map o_id (fetch_outputs s job_id since))
       \<and> mset (fetch_outputs s job_id None) =
           filter_mset (\<lambda>r. o_job_id r = job_id) (mset (outputs s))
       \<and> mset (fetch_outputs s job_id (Some t)) =
           filter_mset (\<lambda>r. o_job_id r = job_id \<and> t < o_created_at r) (mset (outputs s))"
proof -
  have "filter_mset (\<lambda>r. o_job_id r = job_id \<and> (t = 0 \<or> t < o_created_at r)) (mset (outputs s)) =
        filter_mset (\<lambda>r. o_job_id r = job_id \<and> t < o_created_at r) (mset (outputs s))"
  proof (rule filter_mset_cong [OF refl])
    fix r assume "r \<in># mset (outputs s)"
    then have "0 < o_created_at r"
      using assms by (simp add: stamped_after_epoch_def list_all_iff)
    then show "(o_job_id r = job_id \<and> (t = 0 \<or> t < o_created_at r)) =
               (o_job_id r = job_id \<and> t < o_created_at r)"
      by auto
  qed
  then show ?thesis
    by (simp only: sorted_fetch_outputs mset_fetch_outputs_None mset_fetch_outputs_Some simp_thms)
qed

text \<open>
  The ledger \<open>store_two_lines\<close> holds two records of job 1, stamped 101 and 102: a
  \<^verbatim>\<open>since\<close> of 101 selects the second, a \<^verbatim>\<open>since\<close> of 0 both.
\<close>

theorem fetch_outputs_ascending_filtered_witness:
  "stamped_after_epoch store_two_lines
   \<and> sorted (map o_id (fetch_outputs store_two_lines 1 (Some 101)))
   \<and> mset (fetch_outputs store_two_lines 1 (Some 101)) =
       {# \<lparr> o_id = 2, o_job_id = 1, o_created_at = 102, o_source = ''stderr'', o_line = ''second'' \<rparr> #}
   \<and> mset (fetch_outputs store_two_lines 1 (Some 0)) =
       {# \<lparr> o_id = 1, o_job_id = 1, o_created_at = 101, o_source = ''stdout'', o_line = ''first'' \<rparr>,
          \<lparr> o_id = 2, o_job_id = 1, o_created_at = 102, o_source = ''stderr'', o_line = ''second'' \<rparr> #}"
proof -
  have outs: "outputs store_two_lines =
      [\<lparr> o_id = 1, o_job_id = 1, o_created_at = 101, o_source = ''stdout'', o_line = ''first'' \<rparr>,
       \<lparr> o_id = 2, o_job_id = 1, o_created_at = 102, o_source = ''stderr'', o_line = ''second'' \<rparr>]"
    by (simp add: store_two_lines_def store_one_job_def create_job_def empty_store_def
        append_output_def)
  have stamped: "stamped_after_epoch store_two_lines"
    by (simp add: stamped_after_epoch_def outs)
  show ?thesis
    using fetch_outputs_ascending_filtered [OF stamped, of 1 "Some 101" 101]
      fetch_outputs_ascending_filtered [OF stamped, of 1 "Some 0" 0] stamped
    by (simp add: outs)
qed

text \<open>
  C10. A \<^verbatim>\<open>since\<close> of 0 gives the same result as no \<^verbatim>\<open>since\<close>: all of the job's
  records, whatever their time stamps, because the filter is guarded by the truth value
  of \<^verbatim>\<open>since\<close>.
\<close>

theorem fetch_outputs_zero_since_is_none:
  "fetch_outputs s job_id (Some 0) = fetch_outputs s job_id None
   \<and> mset (fetch_outputs s job_id (Some 0)) =
       filter_mset (\<lambda>r. o_job_id r = job_id) (mset (outputs s))"
  by (simp add: fetch_outputs_def since_truthy_def)

section \<open>Properties of the supervisor\<close>

lemma get_job_append_output [simp]: "get_job (append_output s now j src l) k = get_job s k"
  by (simp add: get_job_def append_output_def Let_def)

lemma jobs_read_streams [simp]: "jobs (snd (read_streams s t0 j ls)) = jobs s"
  by (induction s t0 j ls rule: read_streams.induct) (simp_all add: append_output_def Let_def)

lemma get_job_read_streams [simp]: "get_job (snd (read_streams s t0 j ls)) k = get_job s k"
  by (simp add: get_job_def)

lemma outputs_update_job_status [simp]:
  "outputs (update_job_status s now j st ec m) = outputs s"
  by (simp add: update_job_status_def)

lemma outputs_seq_update_job_status [simp]:
  "outputs_seq (update_job_status s now j st ec m) = outputs_seq s"
  by (simp add: update_job_status_def)

lemma pipe_name_not_system [simp]: "pipe_name p \<noteq> ''system''"
  by (cases p) simp_all

lemma outputs_read_streams:
  "\<exists>rows. outputs (snd (read_streams s t0 j ls)) = outputs s @ rows
        \<and> (\<forall>r\<in>set rows. o_source r \<noteq> ''system'')"
proof (induction s t0 j ls rule: read_streams.induct)
  case (1 s t0 job_id)
  then show ?case by simp
next
  case (2 s t0 job_id off p line rest)
  show ?case
  proof (cases "stream_limit < utf8_length line")
    case True
    then show ?thesis by simp
  next
    case False
    with 2 obtain rows where
      "outputs (snd (read_streams (append_output s (t0 + off) job_id (pipe_name p) line) t0 job_id rest)) =
         outputs (append_output s (t0 + off) job_id (pipe_name p) line) @ rows"
      and "\<forall>r\<in>set rows. o_source r \<noteq> ''system''"
      by blast
    with False show ?thesis
      by (auto simp: append_output_def Let_def)
  qed
qed

lemma new_system_lines_read_streams:
  "new_system_lines s (snd (read_streams s t0 j ls)) = []"
  using outputs_read_streams [of s t0 j ls]
  by (auto simp: new_system_lines_def filter_empty_conv)


lemma new_system_lines_update_job_status [simp]:
  "new_system_lines s (update_job_status s' now j st ec m) = new_system_lines s s'"
  by (simp add: new_system_lines_def)

lemma outputs_running [simp]:
  "new_system_lines s (snd (read_streams (update_job_status s t0 k st ec m) t0 j ls)) = []"
  using new_system_lines_read_streams [of "update_job_status s t0 k st ec m" t0 j ls]
  by (simp add: new_system_lines_def)

lemma sleep_job: "get_job store_sleep_job (Suc 0) =
      Some \<lparr> j_id = Suc 0, j_created_at = 100, j_updated_at = 100, j_name = ''nap'',
             j_command = [JStr ''sleep'', JStr ''60''], j_cwd = [], j_env = [], j_status = ''pending'',
             j_exit_code = None, j_meta = [] \<rparr>"
    by (simp add: store_sleep_job_def create_job_def empty_store_def get_job_def)

lemma sleep_argv:
  "argv (j_command \<lparr> j_id = Suc 0, j_created_at = 100, j_updated_at = 100, j_name = ''nap'',
             j_command = [JStr ''sleep'', JStr ''60''], j_cwd = [], j_env = [], j_status = ''pending'',
             j_exit_code = None, j_meta = [] \<rparr>) = Inr (''sleep'' # [''60''])"
  by simp











lemma sleep_store: "outputs store_sleep_job = []"
  by (simp add: store_sleep_job_def create_job_def empty_store_def)



text \<open>
  C6, as the program has it. When the spawn raises \<^verbatim>\<open>FileNotFoundError\<close>, the job's
  status becomes \<^verbatim>\<open>failed\<close> with exit code \<open>-1\<close>, the only record appended is one
  \<^verbatim>\<open>system\<close> line, which contains \<^verbatim>\<open>command not found\<close>, no call is made on a process
  handle and no pipe is read, and \<^verbatim>\<open>run_job\<close> returns \<open>-1\<close>.
\<close>

theorem run_job_command_not_found:
  fixes os s t0 job_id timeout
  defines "res \<equiv> run_job os s t0 job_id timeout"
  assumes "get_job s job_id = Some job"
      and "argv (j_command job) = Inr (prog # args)"
      and "os (prog # args) (cwd_of job) (env_of job) = FileNotFound"
  shows "map_option j_status (get_job (r_store res) job_id) = Some ''failed''
       \<and> map_option j_exit_code (get_job (r_store res) job_id) = Some (Some (- 1))
       \<and> outputs (r_store res) =
           outputs s @ [\<lparr> o_id = Suc (outputs_seq s), o_job_id = job_id, o_created_at = t0,
                           o_source = ''system'', o_line = ''ERROR: command not found: '' @ prog \<rparr>]
       \<and> sublist ''command not found'' (''ERROR: command not found: '' @ prog)
       \<and> r_calls res = []
       \<and> r_value res = Inr (- 1)"
proof -
  have "sublist ''command not found'' (''ERROR: '' @ ''command not found'' @ ('': '' @ prog))"
    by (rule sublist_appendI)
  then have sub: "sublist ''command not found'' (''ERROR: command not found: '' @ prog)"
    by simp
  let ?s1 = "update_job_status s t0 job_id ''running'' None None"
  let ?s2 = "append_output ?s1 t0 job_id ''system'' (''ERROR: command not found: '' @ prog)"
  have res: "res = \<lparr> r_value = Inr (- 1),
                      r_store = update_job_status ?s2 t0 job_id ''failed'' (Some (- 1)) None,
                      r_calls = [], r_end = t0 \<rparr>"
    using assms by (simp add: run_job_def Let_def)
  have job: "map_option j_status (get_job (r_store res) job_id) = Some ''failed''"
       "map_option j_exit_code (get_job (r_store res) job_id) = Some (Some (- 1))"
    using assms(2) by (simp_all add: res get_job_update_job_status)
  have outs: "outputs (r_store res) =
           outputs s @ [\<lparr> o_id = Suc (outputs_seq s), o_job_id = job_id, o_created_at = t0,
                           o_source = ''system'', o_line = ''ERROR: command not found: '' @ prog \<rparr>]"
    by (simp add: res) (simp add: append_output_def)
  show ?thesis
    using job outs sub by (simp add: res)
qed

text \<open>The sleeping job on a system that has no \<^verbatim>\<open>sleep\<close> command.\<close>

theorem run_job_command_not_found_witness:
  "map_option j_status (get_job (r_store (run_job os_not_found store_sleep_job 100 1 None)) 1)
     = Some ''failed''
   \<and> map_option j_exit_code (get_job (r_store (run_job os_not_found store_sleep_job 100 1 None)) 1)
     = Some (Some (- 1))
   \<and> outputs (r_store (run_job os_not_found store_sleep_job 100 1 None)) =
       [\<lparr> o_id = 1, o_job_id = 1, o_created_at = 100, o_source = ''system'',
          o_line = ''ERROR: command not found: sleep'' \<rparr>]
   \<and> r_calls (run_job os_not_found store_sleep_job 100 1 None) = []
   \<and> r_value (run_job os_not_found store_sleep_job 100 1 None) = Inr (- 1)"
proof -
  have b: "os_not_found (''sleep'' # [''60'']) c e = FileNotFound" for c e
    by (simp add: os_not_found_def)
  have c: "outputs store_sleep_job = [] \<and> outputs_seq store_sleep_job = 0"
    by (simp add: store_sleep_job_def create_job_def empty_store_def)
  show ?thesis
    using run_job_command_not_found [where os = os_not_found and s = store_sleep_job
        and timeout = None and ?t0.0 = 100, OF sleep_job sleep_argv b] c
    by simp
qed

text \<open>
  C6 as stated fails for a command that is found but cannot be spawned: the exception
  leaves \<^verbatim>\<open>run_job\<close>, the job stays \<^verbatim>\<open>running\<close> with no exit code and no line is
  appended.
\<close>

theorem run_job_spawn_failure_counterexample:
  "r_value (run_job os_denied store_sleep_job 100 1 None) = Inl (OSError ''[Errno 13] Permission denied'')
   \<and> map_option j_status (get_job (r_store (run_job os_denied store_sleep_job 100 1 None)) 1) = Some ''running''
   \<and> map_option j_exit_code (get_job (r_store (run_job os_denied store_sleep_job 100 1 None)) 1) = Some None
   \<and> outputs (r_store (run_job os_denied store_sleep_job 100 1 None)) = []"
  by (simp add: run_job_def sleep_job os_denied_def cwd_of_def env_of_def Let_def get_job_update_job_status)
     (simp add: store_sleep_job_def create_job_def empty_store_def)

section \<open>Properties of the rule table\<close>

lemma adds_jobs_iff:
  "adds_jobs job_id Q before after \<longleftrightarrow>
     (\<exists>rows. jobs (store after) = jobs (store before) @ rows \<and> list_all Q rows
        \<and> tasks after = tasks before @ map j_id rows
        \<and> dependencies after job_id = dependencies before job_id @ map j_id rows
        \<and> auto_exploit after = auto_exploit before)"
proof
  assume a: "adds_jobs job_id Q before after"
  let ?n = "length (jobs (store before))"
  have "take ?n (jobs (store after)) @ drop ?n (jobs (store after)) = jobs (store after)"
    by (rule append_take_drop_id)
  moreover have "take ?n (jobs (store after)) = jobs (store before)"
    using a by (simp add: adds_jobs_def)
  ultimately have "jobs (store after) = jobs (store before) @ scheduled before after"
    by (simp add: scheduled_def)
  then show "\<exists>rows. jobs (store after) = jobs (store before) @ rows \<and> list_all Q rows
        \<and> tasks after = tasks before @ map j_id rows
        \<and> dependencies after job_id = dependencies before job_id @ map j_id rows
        \<and> auto_exploit after = auto_exploit before"
    using a unfolding adds_jobs_def by blast
next
  assume "\<exists>rows. jobs (store after) = jobs (store before) @ rows \<and> list_all Q rows
        \<and> tasks after = tasks before @ map j_id rows
        \<and> dependencies after job_id = dependencies before job_id @ map j_id rows
        \<and> auto_exploit after = auto_exploit before"
  then show "adds_jobs job_id Q before after"
    by (auto simp: adds_jobs_def scheduled_def)
qed

lemma adds_jobsI:
  assumes "jobs (store after) = jobs (store before) @ rows" and "list_all Q rows"
      and "tasks after = tasks before @ map j_id rows"
      and "dependencies after job_id = dependencies before job_id @ map j_id rows"
      and "auto_exploit after = auto_exploit before"
  shows "adds_jobs job_id Q before after"
  unfolding adds_jobs_iff using assms by blast

lemma adds_jobsE:
  assumes "adds_jobs job_id Q before after"
  obtains rows where "jobs (store after) = jobs (store before) @ rows" and "list_all Q rows"
      and "tasks after = tasks before @ map j_id rows"
      and "dependencies after job_id = dependencies before job_id @ map j_id rows"
      and "auto_exploit after = auto_exploit before"
      and "scheduled before after = rows"
proof -
  from assms obtain rows where rows: "jobs (store after) = jobs (store before) @ rows"
      "list_all Q rows" "tasks after = tasks before @ map j_id rows"
      "dependencies after job_id = dependencies before job_id @ map j_id rows"
      "auto_exploit after = auto_exploit before"
    unfolding adds_jobs_iff by blast
  moreover have "scheduled before after = rows"
    by (simp add: scheduled_def rows(1))
  ultimately show ?thesis using that by blast
qed

lemma adds_jobs_refl [simp]: "adds_jobs job_id Q orch orch"
  by (rule adds_jobsI [where rows = "[]"]) simp_all

lemma adds_jobs_trans:
  assumes "adds_jobs job_id Q a b" and "adds_jobs job_id Q b c"
  shows "adds_jobs job_id Q a c"
proof -
  from assms(1) obtain r1 where r1: "jobs (store b) = jobs (store a) @ r1" "list_all Q r1"
      "tasks b = tasks a @ map j_id r1"
      "dependencies b job_id = dependencies a job_id @ map j_id r1"
      "auto_exploit b = auto_exploit a"
    by (rule adds_jobsE)
  from assms(2) obtain r2 where r2: "jobs (store c) = jobs (store b) @ r2" "list_all Q r2"
      "tasks c = tasks b @ map j_id r2"
      "dependencies c job_id = dependencies b job_id @ map j_id r2"
      "auto_exploit c = auto_exploit b"
    by (rule adds_jobsE)
  show ?thesis
    by (rule adds_jobsI [where rows = "r1 @ r2"]) (simp_all add: r1 r2)
qed

lemma adds_jobs_weaken:
  assumes "adds_jobs job_id Q a b" and "\<And>r. Q r \<Longrightarrow> Q' r"
  shows "adds_jobs job_id Q' a b"
proof -
  from assms(1) obtain rows where rows: "jobs (store b) = jobs (store a) @ rows" "list_all Q rows"
      "tasks b = tasks a @ map j_id rows"
      "dependencies b job_id = dependencies a job_id @ map j_id rows"
      "auto_exploit b = auto_exploit a"
    by (rule adds_jobsE)
  have "list_all Q' rows"
    using rows(2) assms(2) by (simp add: list_all_iff)
  then show ?thesis
    using rows by (intro adds_jobsI [where rows = rows]) simp_all
qed

lemma scheduled_append:
  assumes "adds_jobs job_id Q a b" and "adds_jobs job_id Q' b c"
  shows "scheduled a c = scheduled a b @ scheduled b c"
proof -
  from assms(1) obtain r1 where r1: "jobs (store b) = jobs (store a) @ r1"
    by (rule adds_jobsE)
  from assms(2) obtain r2 where r2: "jobs (store c) = jobs (store b) @ r2"
    by (rule adds_jobsE)
  show ?thesis
    by (simp add: scheduled_def r1 r2)
qed

lemma adds_jobs_schedule_job:
  assumes "job_id \<noteq> 0"
  shows "adds_jobs job_id (\<lambda>r. j_name r = name) orch
           (snd (schedule_job orch now name command cwd env meta (Some job_id)))"
  using assms
  by (intro adds_jobsI [where rows = "[hd (scheduled orch
        (snd (schedule_job orch now name command cwd env meta (Some job_id))))]"])
     (simp_all add: schedule_job_def create_job_def Let_def scheduled_def)

lemma for_each_adds_jobs:
  assumes "\<And>x orch. auto_exploit orch = g \<Longrightarrow> adds_jobs job_id Q orch (snd (body x orch))"
      and "auto_exploit orch = g"
  shows "adds_jobs job_id Q orch (snd (for_each body xs orch))"
  using assms(2)
proof (induction xs arbitrary: orch)
  case Nil
  show ?case by simp
next
  case (Cons x xs)
  have step: "adds_jobs job_id Q orch (snd (body x orch))"
    using assms(1) Cons.prems by simp
  show ?case
  proof (cases "body x orch")
    case (Pair err o1)
    show ?thesis
    proof (cases err)
      case (Some e)
      then show ?thesis using step Pair by simp
    next
      case None
      have "auto_exploit o1 = g"
        using step Pair Cons.prems by (auto elim: adds_jobsE)
      then have "adds_jobs job_id Q o1 (snd (for_each body xs o1))"
        by (rule Cons.IH)
      then show ?thesis
        using step Pair None by (auto intro: adds_jobs_trans)
    qed
  qed
qed

subsection \<open>The discovery rule\<close>

lemma py_get_host_json:
  "py_get (host_json h) ''ip'' JNull = Inr (opt_json (h_ip h))"
  "py_get (host_json h) ''ports'' (JList []) = Inr (JList (map port_json (h_ports h)))"
  by (simp_all add: py_get_def host_json_def)

lemma opt_json_eq_JStr [simp]: "opt_json v = JStr s \<longleftrightarrow> v = Some s"
  by (cases v) (simp_all add: opt_json_def)

lemma open_ports_port_json:
  "open_ports (map port_json ps) =
     Inr (map (\<lambda>p. JInt (pt_port p)) (filter (\<lambda>p. pt_state p = Some ''open'') ps))"
  by (induction ps) (simp_all add: port_json_def py_item_def py_unhashable_def)

lemma meets_ad_ports_host:
  "meets_ad_ports (map (\<lambda>p. JInt (pt_port p)) (filter (\<lambda>p. pt_state p = Some ''open'') (h_ports h)))
     \<longleftrightarrow> host_open_ports h \<inter> ad_ports \<noteq> {}"
  by (auto simp: meets_ad_ports_def host_open_ports_def)

lemma nmap_host_rule_host_json:
  assumes "job_id \<noteq> 0"
  shows "\<exists>o1 rows. nmap_host_rule job_id now (host_json h) orch = (None, o1)
           \<and> jobs (store o1) = jobs (store orch) @ rows
           \<and> map job_brief rows =
               (if host_open_ports h \<inter> ad_ports \<noteq> {} then enum_batch job_id (opt_json (h_ip h))
                else [])
           \<and> tasks o1 = tasks orch @ map j_id rows
           \<and> dependencies o1 job_id = dependencies orch job_id @ map j_id rows
           \<and> auto_exploit o1 = auto_exploit orch"
proof (cases "host_open_ports h \<inter> ad_ports \<noteq> {}")
  case True
  with assms show ?thesis
    by (simp add: nmap_host_rule_def py_get_host_json py_iter_def open_ports_port_json
        meets_ad_ports_host schedule_job_def create_job_def Let_def job_brief_def enum_batch_def)
next
  case False
  then show ?thesis
    by (simp add: nmap_host_rule_def py_get_host_json py_iter_def open_ports_port_json
        meets_ad_ports_host)
qed

lemma nmap_hosts_effect:
  assumes "job_id \<noteq> 0"
  shows "\<exists>o1 rows. for_each (nmap_host_rule job_id now) (map host_json hs) orch = (None, o1)
           \<and> jobs (store o1) = jobs (store orch) @ rows
           \<and> map job_brief rows =
               concat (map (\<lambda>h. if host_open_ports h \<inter> ad_ports \<noteq> {}
                                 then enum_batch job_id (opt_json (h_ip h)) else []) hs)
           \<and> tasks o1 = tasks orch @ map j_id rows
           \<and> dependencies o1 job_id = dependencies orch job_id @ map j_id rows
           \<and> auto_exploit o1 = auto_exploit orch"
proof (induction hs arbitrary: orch)
  case Nil
  show ?case by simp
next
  case (Cons h hs)
  obtain o1 r1 where r1: "nmap_host_rule job_id now (host_json h) orch = (None, o1)"
      "jobs (store o1) = jobs (store orch) @ r1"
      "map job_brief r1 =
         (if host_open_ports h \<inter> ad_ports \<noteq> {} then enum_batch job_id (opt_json (h_ip h)) else [])"
      "tasks o1 = tasks orch @ map j_id r1"
      "dependencies o1 job_id = dependencies orch job_id @ map j_id r1"
      "auto_exploit o1 = auto_exploit orch"
    using nmap_host_rule_host_json [OF assms] by blast
  obtain o2 r2 where r2: "for_each (nmap_host_rule job_id now) (map host_json hs) o1 = (None, o2)"
      "jobs (store o2) = jobs (store o1) @ r2"
      "map job_brief r2 =
         concat (map (\<lambda>h. if host_open_ports h \<inter> ad_ports \<noteq> {}
                           then enum_batch job_id (opt_json (h_ip h)) else []) hs)"
      "tasks o2 = tasks o1 @ map j_id r2"
      "dependencies o2 job_id = dependencies o1 job_id @ map j_id r2"
      "auto_exploit o2 = auto_exploit o1"
    using Cons.IH [of o1] by blast
  have run: "for_each (nmap_host_rule job_id now) (map host_json (h # hs)) orch = (None, o2)"
    by (simp add: r1(1) r2(1))
  show ?case
    unfolding run
    by (intro exI [of _ o2] exI [of _ "r1 @ r2"]) (simp add: r1 r2)
qed

lemma nmap_rule_effect:
  assumes "job_id \<noteq> 0" and "map_of prs ''nmap_xml'' = Some (nmap_result hs)"
  shows "\<exists>o1 rows. nmap_rule job_id now prs orch = (None, o1)
           \<and> jobs (store o1) = jobs (store orch) @ rows
           \<and> map job_brief rows =
               concat (map (\<lambda>h. if host_open_ports h \<inter> ad_ports \<noteq> {}
                                 then enum_batch job_id (opt_json (h_ip h)) else []) hs)
           \<and> tasks o1 = tasks orch @ map j_id rows
           \<and> dependencies o1 job_id = dependencies orch job_id @ map j_id rows
           \<and> auto_exploit o1 = auto_exploit orch"
proof (cases hs)
  case Nil
  then show ?thesis
    using assms(2) by (simp add: nmap_rule_def nmap_result_def)
next
  case (Cons h rest)
  then have "nmap_rule job_id now prs orch =
      for_each (nmap_host_rule job_id now) (map host_json hs) orch"
    using assms(2) by (simp add: nmap_rule_def nmap_result_def py_iter_def)
  then show ?thesis
    using nmap_hosts_effect [OF assms(1), of now hs orch] by simp
qed

subsection \<open>The other two rules add no job, or only exploitation jobs\<close>

lemma getnp_rule_frame:
  "adds_jobs job_id Q orch (snd (getnp_rule job_id now prs orch))"
  by (rule adds_jobsI [where rows = "[]"])
     (simp_all add: getnp_rule_def append_output_def Let_def
        split: option.split sum.split)

lemma launch_exploits_adds_jobs:
  assumes "job_id \<noteq> 0"
  shows "adds_jobs job_id (\<lambda>r. j_name r = ''psexec'') orch
           (snd (launch_exploits_for_cred orch now cred job_id))"
  unfolding launch_exploits_for_cred_def
  by (simp add: adds_jobs_schedule_job [OF assms] Let_def split: sum.split)

lemma cred_rule_adds_jobs:
  assumes "job_id \<noteq> 0" and "auto_exploit orch = g"
  shows "adds_jobs job_id (\<lambda>r. j_name r = ''psexec'' \<and> g) orch (snd (cred_rule job_id now cred orch))"
proof -
  let ?o2 = "orch\<lparr> sessions := add_session (sessions orch) now ''cred'' job_id cred,
                   store := append_output (store orch) now job_id ''system''
                              (''Valid credential found: '' @ py_str cred) \<rparr>"
  have base: "adds_jobs job_id (\<lambda>r. j_name r = ''psexec'' \<and> g) orch ?o2"
    by (rule adds_jobsI [where rows = "[]"]) (simp_all add: append_output_def Let_def)
  show ?thesis
  proof (cases g)
    case False
    then show ?thesis
      using assms(2) base by (simp add: cred_rule_def Let_def)
  next
    case True
    have "adds_jobs job_id (\<lambda>r. j_name r = ''psexec'') ?o2
            (snd (launch_exploits_for_cred ?o2 now cred job_id))"
      by (rule launch_exploits_adds_jobs [OF assms(1)])
    then have "adds_jobs job_id (\<lambda>r. j_name r = ''psexec'' \<and> g) ?o2
            (snd (launch_exploits_for_cred ?o2 now cred job_id))"
      by (rule adds_jobs_weaken) (simp add: True)
    then show ?thesis
      using assms(2) True adds_jobs_trans [OF base] by (simp add: cred_rule_def Let_def)
  qed
qed

lemma cme_rule_adds_jobs:
  assumes "job_id \<noteq> 0"
  shows "adds_jobs job_id (\<lambda>r. j_name r = ''psexec'' \<and> auto_exploit orch) orch
           (snd (cme_rule job_id now prs orch))"
proof -
  have loop: "adds_jobs job_id (\<lambda>r. j_name r = ''psexec'' \<and> auto_exploit orch) orch
           (snd (for_each (cred_rule job_id now) cs orch))" for cs
    by (rule for_each_adds_jobs [where g = "auto_exploit orch"])
       (simp_all add: cred_rule_adds_jobs [OF assms])
  show ?thesis
    by (simp add: cme_rule_def loop split: option.split sum.split)
qed

lemma cme_rule_absent:
  "map_of prs ''crackmapexec_json'' = None \<Longrightarrow> cme_rule job_id now prs orch = (None, orch)"
  by (simp add: cme_rule_def)

text \<open>
  C4. Rule application to the results of a job with a proper id (ids handed out by
  \<^verbatim>\<open>create_job\<close> start at 1), among them a discovery result under \<^verbatim>\<open>nmap_xml\<close>,
  schedules, host by host and in order, the fixed batch of five enumeration jobs for
  every host whose open ports meet the interesting set, and nothing for a host whose
  open ports do not. The jobs added to the ledger are exactly these, each pending, each
  against that host and tagged with the triggering job in its meta, followed only by
  the \<^verbatim>\<open>psexec\<close> jobs of the credential rule, of which there is none when the gate is
  disabled or the job has no \<^verbatim>\<open>crackmapexec_json\<close> result. The jobs that were there are
  untouched; each new job is handed to the event loop and recorded as a child of the
  triggering job. The interesting set contains 445.
\<close>

theorem apply_rules_schedules_enum_batch:
  fixes job_id now prs orch
  defines "after \<equiv> snd (apply_rules job_id now prs orch)"
  assumes "job_id \<noteq> 0" and "map_of prs ''nmap_xml'' = Some (nmap_result hs)"
  shows "(\<exists>rest. map job_brief (scheduled orch after) =
                   concat (map (\<lambda>h. if host_open_ports h \<inter> ad_ports \<noteq> {}
                                     then enum_batch job_id (opt_json (h_ip h)) else []) hs) @ rest
                \<and> list_all (\<lambda>b. fst b = ''psexec'') rest
                \<and> (\<not> auto_exploit orch \<or> map_of prs ''crackmapexec_json'' = None \<longrightarrow> rest = []))
       \<and> take (length (jobs (store orch))) (jobs (store after)) = jobs (store orch)
       \<and> tasks after = tasks orch @ map j_id (scheduled orch after)
       \<and> dependencies after job_id = dependencies orch job_id @ map j_id (scheduled orch after)
       \<and> length (enum_batch job_id ip) = 5
       \<and> 445 \<in> ad_ports"
proof -
  let ?batches = "concat (map (\<lambda>h. if host_open_ports h \<inter> ad_ports \<noteq> {}
                                     then enum_batch job_id (opt_json (h_ip h)) else []) hs)"
  let ?Q = "\<lambda>r. j_name r = ''psexec'' \<and> auto_exploit orch
                \<and> map_of prs ''crackmapexec_json'' \<noteq> None"
  obtain o1 rows1 where nmap: "nmap_rule job_id now prs orch = (None, o1)"
      "jobs (store o1) = jobs (store orch) @ rows1"
      "map job_brief rows1 = ?batches"
      "tasks o1 = tasks orch @ map j_id rows1"
      "dependencies o1 job_id = dependencies orch job_id @ map j_id rows1"
      "auto_exploit o1 = auto_exploit orch"
    using nmap_rule_effect [OF assms(2,3), of now orch] by blast
  obtain e2 o2 where getnp: "getnp_rule job_id now prs o1 = (e2, o2)"
    by (cases "getnp_rule job_id now prs o1")
  have frame2: "adds_jobs job_id ?Q o1 o2"
    using getnp_rule_frame [of job_id ?Q o1 now prs] getnp by simp
  let ?o3 = "case e2 of Some e \<Rightarrow> o2 | None \<Rightarrow> snd (cme_rule job_id now prs o2)"
  have after: "after = ?o3"
    by (simp add: after_def apply_rules_def nmap(1) getnp split: option.split prod.split)
  have gate2: "auto_exploit o2 = auto_exploit orch"
    using frame2 nmap(6) by (auto elim: adds_jobsE)
  have cme: "adds_jobs job_id ?Q o2 (snd (cme_rule job_id now prs o2))"
  proof (cases "map_of prs ''crackmapexec_json''")
    case None
    then show ?thesis by (simp add: cme_rule_absent)
  next
    case (Some v)
    have "adds_jobs job_id (\<lambda>r. j_name r = ''psexec'' \<and> auto_exploit o2) o2
            (snd (cme_rule job_id now prs o2))"
      by (rule cme_rule_adds_jobs [OF assms(2)])
    then show ?thesis
      by (rule adds_jobs_weaken) (simp add: gate2 Some)
  qed
  have "adds_jobs job_id ?Q o2 ?o3"
    using cme by (cases e2) simp_all
  then have "adds_jobs job_id ?Q o1 after"
    unfolding after by (rule adds_jobs_trans [OF frame2])
  then obtain rows2 where rows2: "jobs (store after) = jobs (store o1) @ rows2"
      "list_all ?Q rows2"
      "tasks after = tasks o1 @ map j_id rows2"
      "dependencies after job_id = dependencies o1 job_id @ map j_id rows2"
    by (rule adds_jobsE)
  have sch: "scheduled orch after = rows1 @ rows2"
    by (simp add: scheduled_def rows2(1) nmap(2))
  have briefs: "list_all (\<lambda>b. fst b = ''psexec'') (map job_brief rows2)"
    using rows2(2) by (simp add: list_all_iff job_brief_def)
  have none: "rows2 = []" if "\<not> auto_exploit orch \<or> map_of prs ''crackmapexec_json'' = None"
    using rows2(2) that by (cases rows2) auto
  have first: "\<exists>rest. map job_brief (scheduled orch after) = ?batches @ rest
                \<and> list_all (\<lambda>b. fst b = ''psexec'') rest
                \<and> (\<not> auto_exploit orch \<or> map_of prs ''crackmapexec_json'' = None \<longrightarrow> rest = [])"
    using briefs none by (intro exI [of _ "map job_brief rows2"]) (simp add: sch nmap(3))
  have len: "length (enum_batch job_id ip) = 5"
    by (simp add: enum_batch_def Let_def)
  have old: "take (length (jobs (store orch))) (jobs (store after)) = jobs (store orch)"
    by (simp add: rows2(1) nmap(2))
  have tasks: "tasks after = tasks orch @ map j_id (scheduled orch after)"
    by (simp add: sch rows2(3) nmap(4))
  have deps: "dependencies after job_id =
      dependencies orch job_id @ map j_id (scheduled orch after)"
    by (simp add: sch rows2(4) nmap(5))
  have port: "445 \<in> ad_ports"
    by (simp add: ad_ports_def)
  show ?thesis
    using first old tasks deps len port by blast
qed

lemma hostA_open: "host_open_ports hostA \<inter> ad_ports \<noteq> {}"
  by (simp add: hostA_def host_open_ports_def ad_ports_def)

lemma hostB_open: "\<not> host_open_ports hostB \<inter> ad_ports \<noteq> {}"
  by (simp add: hostB_def host_open_ports_def ad_ports_def)

text \<open>
  The discovery result \<open>[hostA, hostB]\<close> for job 1, with the gate disabled: the batch
  for \<open>hostA\<close>, jobs 2 to 6, and nothing for \<open>hostB\<close>.
\<close>

theorem apply_rules_schedules_enum_batch_witness:
  "map job_brief (scheduled orch_off (snd (apply_rules 1 200 results_nmap orch_off))) =
           enum_batch 1 (JStr ''10.0.0.5'')
   \<and> map j_id (scheduled orch_off (snd (apply_rules 1 200 results_nmap orch_off))) = [2, 3, 4, 5, 6]
   \<and> tasks (snd (apply_rules 1 200 results_nmap orch_off)) = [2, 3, 4, 5, 6]
   \<and> dependencies (snd (apply_rules 1 200 results_nmap orch_off)) 1 = [2, 3, 4, 5, 6]"
proof -
  let ?after = "snd (apply_rules 1 200 results_nmap orch_off)"
  have found: "map_of results_nmap ''nmap_xml'' = Some (nmap_result [hostA, hostB])"
       "map_of results_nmap ''crackmapexec_json'' = None"
    by (simp_all add: results_nmap_def)
  have off: "\<not> auto_exploit orch_off" "tasks orch_off = []" "dependencies orch_off 1 = []"
       "map j_id (jobs (store orch_off)) = [1]"
    by (simp_all add: orch_off_def orchestrator_init_def store_one_job_def create_job_def
        empty_store_def)
  have ip: "opt_json (h_ip hostA) = JStr ''10.0.0.5''"
    by (simp add: hostA_def opt_json_def)
  have pos: "(1::nat) \<noteq> 0" by simp
  note main = apply_rules_schedules_enum_batch [where job_id = 1 and prs = results_nmap
      and hs = "[hostA, hostB]" and now = 200 and orch = orch_off, OF pos found(1)]
  from main have briefs: "map job_brief (scheduled orch_off ?after) = enum_batch 1 (JStr ''10.0.0.5'')"
    using hostA_open hostB_open off(1) ip by auto
  from main have tasks: "tasks ?after = map j_id (scheduled orch_off ?after)"
      and deps: "dependencies ?after 1 = map j_id (scheduled orch_off ?after)"
    using off by simp_all
  have ids: "map j_id (scheduled orch_off ?after) = [2, 3, 4, 5, 6]"
    using hostA_open hostB_open
    by (simp add: apply_rules_def nmap_rule_def getnp_rule_def cme_rule_def results_nmap_def
        nmap_result_def py_iter_def nmap_host_rule_def py_get_host_json open_ports_port_json
        meets_ad_ports_host schedule_job_def create_job_def Let_def scheduled_def orch_off_def
        orchestrator_init_def store_one_job_def empty_store_def)
  show ?thesis
    using briefs tasks deps ids by simp
qed

subsection \<open>The credential rule\<close>

lemma py_get_cred:
  "py_get (JObj c) key JNull = Inr (cred_field c key)"
  by (simp add: py_get_def cred_field_def)

lemma cred_rule_dict:
  assumes "job_id \<noteq> 0"
  shows "\<exists>o1 rows. cred_rule job_id now (JObj c) orch = (None, o1)
           \<and> jobs (store o1) = jobs (store orch) @ rows
           \<and> map job_brief rows =
               (if auto_exploit orch \<and> cred_complete c then [exploit_brief job_id c] else [])
           \<and> tasks o1 = tasks orch @ map j_id rows
           \<and> dependencies o1 job_id = dependencies orch job_id @ map j_id rows
           \<and> sessions o1 = sessions orch @ [cred_session job_id now c]
           \<and> auto_exploit o1 = auto_exploit orch"
  using assms
  by (simp add: cred_rule_def launch_exploits_for_cred_def py_get_cred schedule_job_def
      create_job_def append_output_def add_session_def cred_session_def Let_def job_brief_def
      exploit_brief_def cred_complete_def)

lemma cred_loop_effect:
  assumes "job_id \<noteq> 0"
  shows "\<exists>o1 rows. for_each (cred_rule job_id now) (map JObj creds) orch = (None, o1)
           \<and> jobs (store o1) = jobs (store orch) @ rows
           \<and> map job_brief rows =
               (if auto_exploit orch then map (exploit_brief job_id) (filter cred_complete creds)
                else [])
           \<and> tasks o1 = tasks orch @ map j_id rows
           \<and> dependencies o1 job_id = dependencies orch job_id @ map j_id rows
           \<and> sessions o1 = sessions orch @ map (cred_session job_id now) creds
           \<and> auto_exploit o1 = auto_exploit orch"
proof (induction creds arbitrary: orch)
  case Nil
  show ?case by simp
next
  case (Cons c creds)
  obtain o1 r1 where r1: "cred_rule job_id now (JObj c) orch = (None, o1)"
      "jobs (store o1) = jobs (store orch) @ r1"
      "map job_brief r1 =
         (if auto_exploit orch \<and> cred_complete c then [exploit_brief job_id c] else [])"
      "tasks o1 = tasks orch @ map j_id r1"
      "dependencies o1 job_id = dependencies orch job_id @ map j_id r1"
      "sessions o1 = sessions orch @ [cred_session job_id now c]"
      "auto_exploit o1 = auto_exploit orch"
    using cred_rule_dict [OF assms] by blast
  obtain o2 r2 where r2: "for_each (cred_rule job_id now) (map JObj creds) o1 = (None, o2)"
      "jobs (store o2) = jobs (store o1) @ r2"
      "map job_brief r2 =
         (if auto_exploit o1 then map (exploit_brief job_id) (filter cred_complete creds) else [])"
      "tasks o2 = tasks o1 @ map j_id r2"
      "dependencies o2 job_id = dependencies o1 job_id @ map j_id r2"
      "sessions o2 = sessions o1 @ map (cred_session job_id now) creds"
      "auto_exploit o2 = auto_exploit o1"
    using Cons.IH [of o1] by blast
  have run: "for_each (cred_rule job_id now) (map JObj (c # creds)) orch = (None, o2)"
    by (simp add: r1(1) r2(1))
  show ?case
    unfolding run
    by (intro exI [of _ o2] exI [of _ "r1 @ r2"]) (simp add: r1 r2)
qed

lemma nmap_rule_gate:
  assumes "job_id \<noteq> 0"
  shows "auto_exploit (snd (nmap_rule job_id now prs orch)) = auto_exploit orch"
proof -
  have host: "adds_jobs job_id (\<lambda>r. True) orch (snd (nmap_host_rule job_id now h orch))" for h orch
  proof -
    have step: "adds_jobs job_id (\<lambda>r. True) orch
        (snd (schedule_job orch now name command cwd env meta (Some job_id)))"
      for orch name command cwd env meta
      by (rule adds_jobs_weaken [OF adds_jobs_schedule_job [OF assms]]) simp
    show ?thesis
      unfolding nmap_host_rule_def Let_def
      by (auto split: sum.split intro!: adds_jobs_trans [OF _ step])
  qed
  have "adds_jobs job_id (\<lambda>r. True) orch (snd (for_each (nmap_host_rule job_id now) hosts orch))"
    for hosts
    by (rule for_each_adds_jobs [where g = "auto_exploit orch"]) (simp_all add: host)
  then have "adds_jobs job_id (\<lambda>r. True) orch (snd (nmap_rule job_id now prs orch))"
    by (simp add: nmap_rule_def split: option.split sum.split)
  then show ?thesis
    by (auto elim: adds_jobsE)
qed

text \<open>
  C1, as the program has it. The gate is disabled in a new orchestrator. Take the rule
  application to the results of a job with a proper id, among them credentials under
  \<^verbatim>\<open>valid_credentials\<close> of the \<^verbatim>\<open>crackmapexec_json\<close> result, in which the two rules
  that are evaluated first, for \<^verbatim>\<open>nmap_xml\<close> and \<^verbatim>\<open>impacket_getnp\<close> results, raise no
  exception and leave the state \<open>o2\<close>. It raises no exception and appends one \<^verbatim>\<open>cred\<close>
  session for every credential, whatever the gate. With the gate disabled it schedules
  no job. With the gate enabled it schedules exactly one \<^verbatim>\<open>psexec\<close> job, using that
  credential and parented to the triggering job, for every credential whose target, user
  name and password are all true values, and none for any other credential.
\<close>

theorem apply_rules_sessions_and_gate:
  fixes job_id now prs orch
  defines "after \<equiv> snd (apply_rules job_id now prs orch)"
  assumes "job_id \<noteq> 0"
      and "map_of prs ''crackmapexec_json'' = Some (JObj cme)"
      and "map_of cme ''valid_credentials'' = Some (JList (map JObj creds))"
      and "nmap_rule job_id now prs orch = (None, o1)"
      and "getnp_rule job_id now prs o1 = (None, o2)"
  shows "\<not> auto_exploit (orchestrator_init st ss)
       \<and> fst (apply_rules job_id now prs orch) = None
       \<and> sessions after = sessions o2 @ map (cred_session job_id now) creds
       \<and> map job_brief (scheduled o2 after) =
           (if auto_exploit orch then map (exploit_brief job_id) (filter cred_complete creds)
            else [])
       \<and> tasks after = tasks o2 @ map j_id (scheduled o2 after)
       \<and> dependencies after job_id = dependencies o2 job_id @ map j_id (scheduled o2 after)"
proof -
  have gate1: "auto_exploit o1 = auto_exploit orch"
    using nmap_rule_gate [OF assms(2), of now prs orch] assms(5) by simp
  have gate2: "auto_exploit o2 = auto_exploit o1"
    using getnp_rule_frame [of job_id "\<lambda>r. True" o1 now prs] assms(6)
    by (auto elim: adds_jobsE)
  have truthy: "json_truthy (JObj cme)"
    using assms(4) by (cases cme) simp_all
  have cme: "cme_rule job_id now prs o2 = for_each (cred_rule job_id now) (map JObj creds) o2"
    using assms(3,4) truthy by (simp add: cme_rule_def py_get_def py_iter_def)
  obtain o3 rows where rows: "for_each (cred_rule job_id now) (map JObj creds) o2 = (None, o3)"
      "jobs (store o3) = jobs (store o2) @ rows"
      "map job_brief rows =
         (if auto_exploit o2 then map (exploit_brief job_id) (filter cred_complete creds) else [])"
      "tasks o3 = tasks o2 @ map j_id rows"
      "dependencies o3 job_id = dependencies o2 job_id @ map j_id rows"
      "sessions o3 = sessions o2 @ map (cred_session job_id now) creds"
    using cred_loop_effect [OF assms(2), of now creds o2] by blast
  have res: "apply_rules job_id now prs orch = (None, o3)"
    by (simp add: apply_rules_def assms(5,6) cme rows(1))
  have sch: "scheduled o2 o3 = rows"
    by (simp add: scheduled_def rows(2))
  show ?thesis
    by (simp add: after_def res sch rows gate1 gate2 orchestrator_init_def)
qed

lemma credA_complete: "cred_complete credA"
  by (simp add: credA_def cred_complete_def cred_field_def)

lemma rules_before_cred:
  "nmap_rule job_id now (results_cred c) orch = (None, orch)"
  "getnp_rule job_id now (results_cred c) orch = (None, orch)"
  by (simp_all add: nmap_rule_def getnp_rule_def results_cred_def)

text \<open>
  The complete credential \<open>credA\<close> found by job 1: a session and no job while the gate
  is disabled; a session and job 2 once it is enabled.
\<close>

theorem apply_rules_sessions_and_gate_witness:
  "sessions (snd (apply_rules 1 200 (results_cred credA) orch_off)) = [cred_session 1 200 credA]
   \<and> scheduled orch_off (snd (apply_rules 1 200 (results_cred credA) orch_off)) = []
   \<and> tasks (snd (apply_rules 1 200 (results_cred credA) orch_off)) = []
   \<and> sessions (snd (apply_rules 1 200 (results_cred credA) orch_on)) = [cred_session 1 200 credA]
   \<and> map job_brief (scheduled orch_on (snd (apply_rules 1 200 (results_cred credA) orch_on))) =
       [exploit_brief 1 credA]
   \<and> tasks (snd (apply_rules 1 200 (results_cred credA) orch_on)) = [2]
   \<and> dependencies (snd (apply_rules 1 200 (results_cred credA) orch_on)) 1 = [2]"
proof -
  have pos: "(1::nat) \<noteq> 0" by simp
  have found: "map_of (results_cred credA) ''crackmapexec_json'' =
      Some (JObj [(''valid_credentials'', JList (map JObj [credA]))])"
      "map_of [(''valid_credentials'', JList (map JObj [credA]))] ''valid_credentials'' =
      Some (JList (map JObj [credA]))"
    by (simp_all add: results_cred_def)
  have off: "\<not> auto_exploit orch_off" "sessions orch_off = []" "tasks orch_off = []"
    by (simp_all add: orch_off_def orchestrator_init_def)
  have on: "auto_exploit orch_on" "sessions orch_on = []" "tasks orch_on = []"
       "dependencies orch_on 1 = []"
    by (simp_all add: orch_on_def orchestrator_init_def set_auto_exploit_def)
  have ids: "map j_id (scheduled orch_on (snd (apply_rules 1 200 (results_cred credA) orch_on))) = [2]"
    using credA_complete
    by (simp add: apply_rules_def rules_before_cred)
       (simp add: cme_rule_def results_cred_def py_get_def py_iter_def cred_rule_def
        launch_exploits_for_cred_def schedule_job_def create_job_def Let_def scheduled_def
        orch_on_def set_auto_exploit_def orchestrator_init_def store_one_job_def empty_store_def
        cred_complete_def cred_field_def credA_def append_output_def)
  show ?thesis
    using apply_rules_sessions_and_gate [where job_id = 1 and now = 200
        and prs = "results_cred credA" and orch = orch_off and creds = "[credA]"
        and st = store_one_job and ss = "[]",
        OF pos found rules_before_cred]
      apply_rules_sessions_and_gate [where job_id = 1 and now = 200
        and prs = "results_cred credA" and orch = orch_on and creds = "[credA]"
        and st = store_one_job and ss = "[]",
        OF pos found rules_before_cred]
      credA_complete off on ids
    by simp
qed

text \<open>
  C1 as stated fails in two ways, both with the gate enabled. For a credential without
  a password the session is appended and no job is scheduled. And when the job also has
  a result under \<^verbatim>\<open>nmap_xml\<close> that is not a list of hosts, the discovery rule raises
  before the credential rule is reached: for the complete credential \<open>credA\<close> no
  session is appended and no job is scheduled.
\<close>

theorem apply_rules_credential_counterexample:
  "auto_exploit orch_on
   \<and> fst (apply_rules 1 200 (results_cred credB) orch_on) = None
   \<and> sessions (snd (apply_rules 1 200 (results_cred credB) orch_on)) = [cred_session 1 200 credB]
   \<and> scheduled orch_on (snd (apply_rules 1 200 (results_cred credB) orch_on)) = []
   \<and> tasks (snd (apply_rules 1 200 (results_cred credB) orch_on)) = []
   \<and> fst (apply_rules 1 200 results_odd_nmap orch_on) =
       Some (AttributeError (quoted ''str'' @ '' object has no attribute '' @ quoted ''get''))
   \<and> sessions (snd (apply_rules 1 200 results_odd_nmap orch_on)) = []
   \<and> scheduled orch_on (snd (apply_rules 1 200 results_odd_nmap orch_on)) = []"
  by (simp add: apply_rules_def rules_before_cred)
     (simp add: nmap_rule_def nmap_host_rule_def results_odd_nmap_def cme_rule_def
      results_cred_def py_get_def py_iter_def cred_rule_def launch_exploits_for_cred_def Let_def
      scheduled_def orch_on_def set_auto_exploit_def orchestrator_init_def credB_def
      add_session_def cred_session_def append_output_def)

section \<open>Properties of the orchestrator pipeline\<close>

lemma find_append_Some: "find P xs = Some x \<Longrightarrow> find P (xs @ ys) = Some x"
  by (induction xs) (auto split: if_splits)

lemma store_extends_refl [simp]: "store_extends s s"
  by (simp add: store_extends_def)

lemma store_extends_trans: "store_extends a b \<Longrightarrow> store_extends b c \<Longrightarrow> store_extends a c"
  unfolding store_extends_def by (meson prefix_order.trans)

lemma get_job_extends: "store_extends s s' \<Longrightarrow> get_job s k = Some j \<Longrightarrow> get_job s' k = Some j"
  by (auto simp: store_extends_def get_job_def prefix_def find_append_Some)

lemma system_line_extends: "store_extends s s' \<Longrightarrow> system_line s k l \<Longrightarrow> system_line s' k l"
  by (auto simp: store_extends_def system_line_def prefix_def)

lemma extends_schedule_job:
  "store_extends (store orch) (store (snd (schedule_job orch now name cmd cwd env meta parent)))"
  by (simp add: schedule_job_def create_job_def Let_def store_extends_def)

lemma extends_for_each:
  assumes "\<And>x orch. store_extends (store orch) (store (snd (body x orch)))"
  shows "store_extends (store orch) (store (snd (for_each body xs orch)))"
proof (induction xs arbitrary: orch)
  case Nil
  show ?case by simp
next
  case (Cons x xs)
  show ?case
  proof (cases "body x orch")
    case (Pair err o1)
    have step: "store_extends (store orch) (store o1)"
      using assms [of orch x] Pair by simp
    show ?thesis
    proof (cases err)
      case (Some e)
      then show ?thesis using step Pair by simp
    next
      case None
      then show ?thesis
        using store_extends_trans [OF step Cons.IH [of o1]] Pair by simp
    qed
  qed
qed

lemma extends_nmap_host_rule:
  "store_extends (store orch) (store (snd (nmap_host_rule job_id now h orch)))"
  unfolding nmap_host_rule_def Let_def
  by (auto split: sum.split intro!: store_extends_trans [OF _ extends_schedule_job])

lemma extends_nmap_rule:
  "store_extends (store orch) (store (snd (nmap_rule job_id now prs orch)))"
  by (simp add: nmap_rule_def extends_for_each extends_nmap_host_rule
      split: option.split sum.split)

lemma extends_getnp_rule:
  "store_extends (store orch) (store (snd (getnp_rule job_id now prs orch)))"
  by (simp add: getnp_rule_def Let_def store_extends_def append_output_def
      split: option.split sum.split)

lemma extends_launch_exploits_for_cred:
  "store_extends (store orch) (store (snd (launch_exploits_for_cred orch now c job_id)))"
  unfolding launch_exploits_for_cred_def Let_def
  by (simp add: extends_schedule_job split: sum.split)

lemma extends_cred_rule:
  "store_extends (store orch) (store (snd (cred_rule job_id now c orch)))"
proof -
  let ?o2 = "orch\<lparr> sessions := add_session (sessions orch) now ''cred'' job_id c,
                   store := append_output (store orch) now job_id ''system''
                              (''Valid credential found: '' @ py_str c) \<rparr>"
  have base: "store_extends (store orch) (store ?o2)"
    by (simp add: store_extends_def append_output_def Let_def)
  have "store_extends (store ?o2) (store (snd (launch_exploits_for_cred ?o2 now c job_id)))"
    by (rule extends_launch_exploits_for_cred)
  then have "store_extends (store orch) (store (snd (launch_exploits_for_cred ?o2 now c job_id)))"
    by (rule store_extends_trans [OF base])
  then show ?thesis
    using base by (simp add: cred_rule_def Let_def)
qed

lemma extends_cme_rule:
  "store_extends (store orch) (store (snd (cme_rule job_id now prs orch)))"
  by (simp add: cme_rule_def extends_for_each extends_cred_rule
      split: option.split sum.split)

lemma extends_apply_rules:
  "store_extends (store orch) (store (snd (apply_rules job_id now prs orch)))"
proof -
  obtain e1 o1 where r1: "nmap_rule job_id now prs orch = (e1, o1)"
    by (cases "nmap_rule job_id now prs orch")
  obtain e2 o2 where r2: "getnp_rule job_id now prs o1 = (e2, o2)"
    by (cases "getnp_rule job_id now prs o1")
  have 1: "store_extends (store orch) (store o1)"
    using extends_nmap_rule [of orch job_id now prs] r1 by simp
  have 2: "store_extends (store o1) (store o2)"
    using extends_getnp_rule [of o1 job_id now prs] r2 by simp
  have 3: "store_extends (store o2) (store (snd (cme_rule job_id now prs o2)))"
    by (rule extends_cme_rule)
  show ?thesis
    using 1 store_extends_trans [OF 1 2] store_extends_trans [OF store_extends_trans [OF 1 2] 3]
    by (simp add: apply_rules_def r1 r2 split: option.split)
qed

lemma get_job_read_streams_result:
  "read_streams s t0 j ls = (e, s2) \<Longrightarrow> get_job s2 k = get_job s k"
  using get_job_read_streams [of s t0 j ls k] by simp

lemma run_job_returned:
  assumes "r_value (run_job os s t0 k None) = Inr c"
  obtains job job' where "get_job s k = Some job"
    and "get_job (r_store (run_job os s t0 k None)) k = Some job'"
    and "j_meta job' = j_meta job"
    and "j_exit_code job' = Some c"
    and "j_status job' = (if c = 0 then ''finished'' else ''failed'')"
proof (cases "get_job s k")
  case None
  with assms show ?thesis by (simp add: run_job_def)
next
  case (Some job)
  show ?thesis
  proof (rule that [OF Some])
    show "get_job (r_store (run_job os s t0 k None)) k =
        Some (job\<lparr> j_status := (if c = 0 then ''finished'' else ''failed''),
                    j_exit_code := Some c, j_updated_at := r_end (run_job os s t0 k None) \<rparr>)"
      using assms Some
      by (auto simp: run_job_def run_to_exit_def reader_failed_def Let_def
          get_job_update_job_status get_job_read_streams_result
          split: option.splits list.splits spawn_result.splits sum.splits prod.splits)
  qed simp_all
qed

lemma set_parser_result_ok:
  assumes "parsers_slot_ok meta"
  obtains meta' where "set_parser_result meta name v = Inr meta'"
    and "parsers_slot_ok meta'"
    and "parser_entry meta' name = Some v"
    and "\<And>n. n \<noteq> name \<Longrightarrow> parser_entry meta' n = parser_entry meta n"
proof (cases "map_of meta ''parsers''")
  case None
  let ?m = "meta @ [(''parsers'', JObj [(name, v)])]"
  have "set_parser_result meta name v = Inr ?m"
    by (simp add: set_parser_result_def None)
  moreover have "map_of ?m ''parsers'' = Some (JObj [(name, v)])"
    using None by (simp add: map_add_def)
  ultimately show ?thesis
    using None that [of ?m] by (simp add: parsers_slot_ok_def parser_entry_def)
next
  case (Some slot)
  with assms obtain d where d: "slot = JObj d"
    by (cases slot) (simp_all add: parsers_slot_ok_def)
  let ?m = "AList.update ''parsers'' (JObj (AList.update name v d)) meta"
  have "set_parser_result meta name v = Inr ?m"
    by (simp add: set_parser_result_def Some d)
  moreover have "map_of ?m ''parsers'' = Some (JObj (AList.update name v d))"
    by (simp add: update_conv')
  ultimately show ?thesis
    using Some d that [of ?m] by (simp add: parsers_slot_ok_def parser_entry_def update_conv')
qed

lemma system_line_append_output:
  "system_line (append_output s now k ''system'' l) k l"
  by (simp add: system_line_def append_output_def Let_def)

lemma system_line_prefix:
  "prefix (outputs s) (outputs s') \<Longrightarrow> system_line s k l \<Longrightarrow> system_line s' k l"
  by (auto simp: system_line_def prefix_def)

lemma parser_step_ok:
  assumes "get_job s job_id = Some job" and "parsers_slot_ok (j_meta job)"
  obtains prs1 s1 job1 where
    "parser_step job_id now outs (name, parser) prs s = (None, prs1, s1)"
    and "get_job s1 job_id = Some job1"
    and "j_status job1 = j_status job"
    and "parsers_slot_ok (j_meta job1)"
    and "prefix (outputs s) (outputs s1)"
    and "\<And>e. parser outs = Inl e \<Longrightarrow>
           system_line s1 job_id (''PARSER '' @ name @ '' ERROR: '' @ exn_str e)"
    and "\<And>v. parser outs = Inr v \<Longrightarrow> json_truthy v \<Longrightarrow>
           parser_entry (j_meta job1) name = Some v \<and> map_of prs1 name = Some v
           \<and> j_exit_code job1 = None"
    and "(\<And>v. parser outs = Inr v \<Longrightarrow> \<not> json_truthy v) \<Longrightarrow> job1 = job"
    and "\<And>n. n \<noteq> name \<Longrightarrow>
           parser_entry (j_meta job1) n = parser_entry (j_meta job) n \<and> map_of prs1 n = map_of prs n"
proof (cases "parser outs")
  case (Inl e)
  let ?s1 = "append_output s now job_id ''system'' (''PARSER '' @ name @ '' ERROR: '' @ exn_str e)"
  have step: "parser_step job_id now outs (name, parser) prs s = (None, prs, ?s1)"
    by (simp add: parser_step_def Inl)
  show ?thesis
  proof (rule that [OF step])
    show "get_job ?s1 job_id = Some job" using assms(1) by simp
    show "prefix (outputs s) (outputs ?s1)" by (simp add: append_output_def Let_def)
    show "system_line ?s1 job_id (''PARSER '' @ name @ '' ERROR: '' @ exn_str e')"
      if "parser outs = Inl e'" for e'
      using that Inl by (simp add: system_line_append_output)
  qed (use assms Inl in simp_all)
next
  case (Inr v)
  show ?thesis
  proof (cases "json_truthy v")
    case False
    have step: "parser_step job_id now outs (name, parser) prs s = (None, prs, s)"
      by (simp add: parser_step_def Inr False)
    show ?thesis
      by (rule that [OF step]) (use assms Inr False in simp_all)
  next
    case True
    obtain meta' where meta': "set_parser_result (j_meta job) name v = Inr meta'"
      "parsers_slot_ok meta'" "parser_entry meta' name = Some v"
      "\<And>n. n \<noteq> name \<Longrightarrow> parser_entry meta' n = parser_entry (j_meta job) n"
      using set_parser_result_ok [OF assms(2)] by metis
    let ?s1 = "update_job_status s now job_id (j_status job) None (Some meta')"
    let ?job1 = "job\<lparr> j_status := j_status job, j_exit_code := None, j_updated_at := now,
                        j_meta := meta' \<rparr>"
    have step: "parser_step job_id now outs (name, parser) prs s = (None, AList.update name v prs, ?s1)"
      by (simp add: parser_step_def Inr True assms(1) meta'(1))
    have job1: "get_job ?s1 job_id = Some ?job1"
      by (simp add: get_job_update_job_status assms(1))
    show ?thesis
    proof (rule that [OF step job1])
      show "parser_entry (j_meta ?job1) n = parser_entry (j_meta job) n \<and>
            map_of (AList.update name v prs) n = map_of prs n" if "n \<noteq> name" for n
        using that meta'(4) by (simp add: update_conv')
      show "parser_entry (j_meta ?job1) name = Some v' \<and>
            map_of (AList.update name v prs) name = Some v' \<and> j_exit_code ?job1 = None"
        if "parser outs = Inr v'" for v'
        using that Inr meta'(3) by (simp add: update_conv')
      show "?job1 = job" if "\<And>v. parser outs = Inr v \<Longrightarrow> \<not> json_truthy v"
        using that [OF Inr] True by simp
    qed (use meta'(2) Inr in simp_all)
  qed
qed


lemma run_parsers_ok:
  assumes "get_job s job_id = Some job" and "parsers_slot_ok (j_meta job)"
  shows "\<exists>prs' s' job'.
      run_parsers job_id now outs reg prs s = (None, prs', s')
    \<and> get_job s' job_id = Some job'
    \<and> j_status job' = j_status job
    \<and> parsers_slot_ok (j_meta job')
    \<and> prefix (outputs s) (outputs s')
    \<and> (\<forall>name parser e. (name, parser) \<in> set reg \<longrightarrow> parser outs = Inl e \<longrightarrow>
          system_line s' job_id (''PARSER '' @ name @ '' ERROR: '' @ exn_str e))
    \<and> (\<forall>name parser v. (name, parser) \<in> set reg \<longrightarrow> parser outs = Inr v \<longrightarrow> json_truthy v \<longrightarrow>
          j_exit_code job' = None)
    \<and> ((\<forall>name parser v. (name, parser) \<in> set reg \<longrightarrow> parser outs = Inr v \<longrightarrow> \<not> json_truthy v) \<longrightarrow>
          job' = job)
    \<and> (\<forall>n. n \<notin> fst ` set reg \<longrightarrow>
          parser_entry (j_meta job') n = parser_entry (j_meta job) n \<and> map_of prs' n = map_of prs n)
    \<and> (distinct (map fst reg) \<longrightarrow>
          (\<forall>name parser v. (name, parser) \<in> set reg \<longrightarrow> parser outs = Inr v \<longrightarrow> json_truthy v \<longrightarrow>
             parser_entry (j_meta job') name = Some v \<and> map_of prs' name = Some v))"
  using assms
proof (induction reg arbitrary: prs s job)
  case Nil
  then show ?case by simp
next
  case (Cons entry reg)
  obtain name parser where entry: "entry = (name, parser)" by (cases entry)
  obtain prs1 s1 job1 where step:
    "parser_step job_id now outs (name, parser) prs s = (None, prs1, s1)"
    "get_job s1 job_id = Some job1"
    "j_status job1 = j_status job"
    "parsers_slot_ok (j_meta job1)"
    "prefix (outputs s) (outputs s1)"
    "\<And>e. parser outs = Inl e \<Longrightarrow>
           system_line s1 job_id (''PARSER '' @ name @ '' ERROR: '' @ exn_str e)"
    "\<And>v. parser outs = Inr v \<Longrightarrow> json_truthy v \<Longrightarrow>
           parser_entry (j_meta job1) name = Some v \<and> map_of prs1 name = Some v
           \<and> j_exit_code job1 = None"
    "(\<And>v. parser outs = Inr v \<Longrightarrow> \<not> json_truthy v) \<Longrightarrow> job1 = job"
    "\<And>n. n \<noteq> name \<Longrightarrow>
           parser_entry (j_meta job1) n = parser_entry (j_meta job) n \<and> map_of prs1 n = map_of prs n"
    using parser_step_ok [OF Cons.prems, where now = now and outs = outs and name = name
        and parser = parser and prs = prs] by blast
  obtain prs' s' job' where rest:
    "run_parsers job_id now outs reg prs1 s1 = (None, prs', s')"
    "get_job s' job_id = Some job'"
    "j_status job' = j_status job1"
    "parsers_slot_ok (j_meta job')"
    "prefix (outputs s1) (outputs s')"
    "\<And>n p e. (n, p) \<in> set reg \<Longrightarrow> p outs = Inl e \<Longrightarrow>
          system_line s' job_id (''PARSER '' @ n @ '' ERROR: '' @ exn_str e)"
    "\<And>n p v. (n, p) \<in> set reg \<Longrightarrow> p outs = Inr v \<Longrightarrow> json_truthy v \<Longrightarrow> j_exit_code job' = None"
    "(\<forall>n p v. (n, p) \<in> set reg \<longrightarrow> p outs = Inr v \<longrightarrow> \<not> json_truthy v) \<Longrightarrow> job' = job1"
    "\<And>n. n \<notin> fst ` set reg \<Longrightarrow>
          parser_entry (j_meta job') n = parser_entry (j_meta job1) n \<and> map_of prs' n = map_of prs1 n"
    "\<And>n p v. distinct (map fst reg) \<Longrightarrow> (n, p) \<in> set reg \<Longrightarrow> p outs = Inr v \<Longrightarrow> json_truthy v \<Longrightarrow>
             parser_entry (j_meta job') n = Some v \<and> map_of prs' n = Some v"
    using Cons.IH [OF step(2) step(4), where prs = prs1] by (elim exE conjE) blast
  have run: "run_parsers job_id now outs (entry # reg) prs s = (None, prs', s')"
    by (simp add: entry step(1) rest(1))
  have lines: "system_line s' job_id (''PARSER '' @ n @ '' ERROR: '' @ exn_str e)"
    if "(n, p) \<in> set (entry # reg)" "p outs = Inl e" for n p e
  proof (cases "(n, p) = (name, parser)")
    case True
    then show ?thesis using step(6) that(2) rest(5) system_line_prefix by blast
  next
    case False
    then show ?thesis using that rest(6) entry by auto
  qed
  have exit_none: "j_exit_code job' = None"
    if "(n, p) \<in> set (entry # reg)" "p outs = Inr v" "json_truthy v" for n p v
  proof (cases "\<forall>n p v. (n, p) \<in> set reg \<longrightarrow> p outs = Inr v \<longrightarrow> \<not> json_truthy v")
    case True
    then have "job' = job1" by (rule rest(8))
    moreover have "(n, p) = (name, parser)" using that True entry by auto
    ultimately show ?thesis using step(7) that by auto
  next
    case False
    then show ?thesis using rest(7) by blast
  qed
  have unchanged: "job' = job"
    if "\<forall>n p v. (n, p) \<in> set (entry # reg) \<longrightarrow> p outs = Inr v \<longrightarrow> \<not> json_truthy v"
  proof -
    have "job' = job1" using that by (intro rest(8)) auto
    moreover have "job1 = job" using that entry by (intro step(8)) auto
    ultimately show ?thesis by simp
  qed
  have others: "parser_entry (j_meta job') n = parser_entry (j_meta job) n \<and> map_of prs' n = map_of prs n"
    if "n \<notin> fst ` set (entry # reg)" for n
  proof -
    have "n \<noteq> name" "n \<notin> fst ` set reg" using that entry by auto
    then show ?thesis using step(9) rest(9) by simp
  qed
  have entries: "parser_entry (j_meta job') n = Some v \<and> map_of prs' n = Some v"
    if d: "distinct (map fst (entry # reg))" and "(n, p) \<in> set (entry # reg)" "p outs = Inr v" "json_truthy v"
    for n p v
  proof (cases "(n, p) \<in> set reg")
    case True
    then show ?thesis using rest(10) d that by simp
  next
    case False
    then have np: "n = name" "p = parser" using that entry by auto
    have "name \<notin> fst ` set reg" using d entry by simp
    then have "parser_entry (j_meta job') name = parser_entry (j_meta job1) name"
      "map_of prs' name = map_of prs1 name"
      using rest(9) by simp_all
    then show ?thesis using step(7) that np by simp
  qed
  show ?case
  proof (intro exI conjI)
    show "run_parsers job_id now outs (entry # reg) prs s = (None, prs', s')" by (fact run)
    show "get_job s' job_id = Some job'" by (fact rest(2))
    show "j_status job' = j_status job" using rest(3) step(3) by simp
    show "parsers_slot_ok (j_meta job')" by (fact rest(4))
    show "prefix (outputs s) (outputs s')" using step(5) rest(5) by (rule prefix_order.trans)
    show "\<forall>name parser e. (name, parser) \<in> set (entry # reg) \<longrightarrow> parser outs = Inl e \<longrightarrow>
          system_line s' job_id (''PARSER '' @ name @ '' ERROR: '' @ exn_str e)"
      using lines by blast
    show "\<forall>name parser v. (name, parser) \<in> set (entry # reg) \<longrightarrow> parser outs = Inr v \<longrightarrow> json_truthy v \<longrightarrow>
          j_exit_code job' = None"
      using exit_none by blast
    show "(\<forall>name parser v. (name, parser) \<in> set (entry # reg) \<longrightarrow> parser outs = Inr v \<longrightarrow> \<not> json_truthy v) \<longrightarrow>
          job' = job"
      using unchanged by blast
    show "\<forall>n. n \<notin> fst ` set (entry # reg) \<longrightarrow>
          parser_entry (j_meta job') n = parser_entry (j_meta job) n \<and> map_of prs' n = map_of prs n"
      using others by blast
    show "distinct (map fst (entry # reg)) \<longrightarrow>
          (\<forall>name parser v. (name, parser) \<in> set (entry # reg) \<longrightarrow> parser outs = Inr v \<longrightarrow> json_truthy v \<longrightarrow>
             parser_entry (j_meta job') name = Some v \<and> map_of prs' name = Some v)"
      using entries by blast
  qed
qed



subsection \<open>One run of the pipeline\<close>

text \<open>
  The job of \<^const>\<open>store_rdp_job\<close> runs \<^verbatim>\<open>xfreerdp /v:10.0.0.5 +auth-only\<close>; the
  process writes one line to its standard error and exits with code 0. The lemmas
  below evaluate the supervisor and the analyzer \<^const>\<open>parser_rdp_check\<close> on it, and
  on the same job created with a string under \<^verbatim>\<open>parsers\<close> in its meta.
\<close>

lemma utf8_length_rdp: "utf8_length ''Authentication only, exit status 0'' = 34"
  by (simp add: utf8_length_def)

lemma impl_of_registry_rdp: "DAList.impl_of registry_rdp = [(''rdp_check'', parser_rdp_check)]"
  by (simp add: registry_rdp_def Alist_inverse)

lemma impl_of_registry_demo:
  "DAList.impl_of registry_demo = [(''broken'', parser_raising), (''rdp_check'', parser_rdp_check)]"
  by (simp add: registry_demo_def Alist_inverse)

lemma rdp_job: "get_job store_rdp_job (Suc 0) =
      Some \<lparr> j_id = Suc 0, j_created_at = 100, j_updated_at = 100, j_name = ''rdp'',
             j_command = [JStr ''xfreerdp'', JStr ''/v:10.0.0.5'', JStr ''+auth-only''],
             j_cwd = [], j_env = [], j_status = ''pending'',
             j_exit_code = None, j_meta = [(''phase'', JStr ''check'')] \<rparr>"
  by (simp add: store_rdp_job_def create_job_def empty_store_def get_job_def)

lemma tagged_job: "get_job store_tagged_job (Suc 0) =
      Some \<lparr> j_id = Suc 0, j_created_at = 100, j_updated_at = 100, j_name = ''rdp'',
             j_command = [JStr ''xfreerdp'', JStr ''/v:10.0.0.5'', JStr ''+auth-only''],
             j_cwd = [], j_env = [], j_status = ''pending'',
             j_exit_code = None, j_meta = [(''parsers'', JStr ''rdp_check'')] \<rparr>"
  by (simp add: store_tagged_job_def create_job_def empty_store_def get_job_def)

lemma rdp_run:
  "run_job os_rdp store_rdp_job 100 (Suc 0) None =
     \<lparr> r_value = Inr 0,
       r_store = \<lparr> jobs = [\<lparr> j_id = Suc 0, j_created_at = 100, j_updated_at = 102, j_name = ''rdp'',
             j_command = [JStr ''xfreerdp'', JStr ''/v:10.0.0.5'', JStr ''+auth-only''],
             j_cwd = [], j_env = [], j_status = ''finished'',
             j_exit_code = Some 0, j_meta = [(''phase'', JStr ''check'')] \<rparr>],
                   outputs = [\<lparr> o_id = Suc 0, o_job_id = Suc 0, o_created_at = 101,
                                 o_source = ''stderr'',
                                 o_line = ''Authentication only, exit status 0'' \<rparr>],
                   jobs_seq = Suc 0, outputs_seq = Suc 0 \<rparr>,
       r_calls = [Wait], r_end = 102 \<rparr>"
  by (simp add: run_job_def rdp_job os_rdp_def cwd_of_def env_of_def run_to_exit_def Let_def
        utf8_length_rdp stream_limit_def)
     (simp add: store_rdp_job_def create_job_def empty_store_def update_job_status_def
        append_output_def Let_def)

lemma tagged_run:
  "run_job os_rdp store_tagged_job 100 (Suc 0) None =
     \<lparr> r_value = Inr 0,
       r_store = \<lparr> jobs = [\<lparr> j_id = Suc 0, j_created_at = 100, j_updated_at = 102, j_name = ''rdp'',
             j_command = [JStr ''xfreerdp'', JStr ''/v:10.0.0.5'', JStr ''+auth-only''],
             j_cwd = [], j_env = [], j_status = ''finished'',
             j_exit_code = Some 0, j_meta = [(''parsers'', JStr ''rdp_check'')] \<rparr>],
                   outputs = [\<lparr> o_id = Suc 0, o_job_id = Suc 0, o_created_at = 101,
                                 o_source = ''stderr'',
                                 o_line = ''Authentication only, exit status 0'' \<rparr>],
                   jobs_seq = Suc 0, outputs_seq = Suc 0 \<rparr>,
       r_calls = [Wait], r_end = 102 \<rparr>"
  by (simp add: run_job_def tagged_job os_rdp_def cwd_of_def env_of_def run_to_exit_def Let_def
        utf8_length_rdp stream_limit_def)
     (simp add: store_tagged_job_def create_job_def empty_store_def update_job_status_def
        append_output_def Let_def)

lemma rdp_outs:
  "fetch_outputs (r_store (run_job os_rdp store_rdp_job 100 (Suc 0) None)) (Suc 0) None =
     [\<lparr> o_id = Suc 0, o_job_id = Suc 0, o_created_at = 101, o_source = ''stderr'',
        o_line = ''Authentication only, exit status 0'' \<rparr>]"
  by (simp add: rdp_run fetch_outputs_def since_truthy_def)

lemma tagged_outs:
  "fetch_outputs (r_store (run_job os_rdp store_tagged_job 100 (Suc 0) None)) (Suc 0) None =
     [\<lparr> o_id = Suc 0, o_job_id = Suc 0, o_created_at = 101, o_source = ''stderr'',
        o_line = ''Authentication only, exit status 0'' \<rparr>]"
  by (simp add: tagged_run fetch_outputs_def since_truthy_def)

lemma rdp_check_hit:
  "parser_rdp_check [\<lparr> o_id = Suc 0, o_job_id = Suc 0, o_created_at = 101, o_source = ''stderr'',
        o_line = ''Authentication only, exit status 0'' \<rparr>] =
     Inr (JObj [(''rdp_auth_success'', JBool True)])"
  by (simp add: parser_rdp_check_def)

lemma rdp_ran_job:
  "get_job (r_store (run_job os_rdp store_rdp_job 100 (Suc 0) None)) (Suc 0) =
     Some \<lparr> j_id = Suc 0, j_created_at = 100, j_updated_at = 102, j_name = ''rdp'',
             j_command = [JStr ''xfreerdp'', JStr ''/v:10.0.0.5'', JStr ''+auth-only''],
             j_cwd = [], j_env = [], j_status = ''finished'',
             j_exit_code = Some 0, j_meta = [(''phase'', JStr ''check'')] \<rparr>"
  by (simp add: rdp_run get_job_def)

lemma tagged_ran_job:
  "get_job (r_store (run_job os_rdp store_tagged_job 100 (Suc 0) None)) (Suc 0) =
     Some \<lparr> j_id = Suc 0, j_created_at = 100, j_updated_at = 102, j_name = ''rdp'',
             j_command = [JStr ''xfreerdp'', JStr ''/v:10.0.0.5'', JStr ''+auth-only''],
             j_cwd = [], j_env = [], j_status = ''finished'',
             j_exit_code = Some 0, j_meta = [(''parsers'', JStr ''rdp_check'')] \<rparr>"
  by (simp add: tagged_run get_job_def)

lemma apply_rules_no_rule:
  "apply_rules job_id now [(''rdp_check'', r)] orch = (None, orch)"
  by (simp add: apply_rules_def nmap_rule_def getnp_rule_def cme_rule_def)

lemma rdp_pipeline:
  "run_and_process os_rdp registry_rdp 100 (Suc 0) orch_rdp =
     (None, orch_rdp\<lparr> store :=
        update_job_status (r_store (run_job os_rdp store_rdp_job 100 (Suc 0) None)) 102 (Suc 0)
          ''finished'' None
          (Some [(''phase'', JStr ''check''),
                 (''parsers'', JObj [(''rdp_check'', JObj [(''rdp_auth_success'', JBool True)])])]) \<rparr>)"
proof -
  let ?s1 = "r_store (run_job os_rdp store_rdp_job 100 (Suc 0) None)"
  let ?outs = "fetch_outputs ?s1 (Suc 0) None"
  let ?r = "JObj [(''rdp_auth_success'', JBool True)]"
  let ?meta = "[(''phase'', JStr ''check''),
                 (''parsers'', JObj [(''rdp_check'', JObj [(''rdp_auth_success'', JBool True)])])]"
  have hit: "parser_rdp_check ?outs = Inr ?r"
    by (simp only: rdp_outs rdp_check_hit)
  have step: "parser_step (Suc 0) 102 ?outs (''rdp_check'', parser_rdp_check) [] ?s1 =
      (None, [(''rdp_check'', ?r)], update_job_status ?s1 102 (Suc 0) ''finished'' None (Some ?meta))"
    unfolding parser_step_def
    by (simp only: fst_conv snd_conv hit Let_def sum.case prod.case)
       (simp add: rdp_ran_job set_parser_result_def)
  have loop: "run_parsers (Suc 0) 102 ?outs [(''rdp_check'', parser_rdp_check)] [] ?s1 =
      (None, [(''rdp_check'', ?r)], update_job_status ?s1 102 (Suc 0) ''finished'' None (Some ?meta))"
    by (simp only: run_parsers.simps step prod.case option.case)
  have run: "run_job os_rdp (store orch_rdp) 100 (Suc 0) None = run_job os_rdp store_rdp_job 100 (Suc 0) None"
    by (simp add: orch_rdp_def orchestrator_init_def)
  have val: "r_value (run_job os_rdp store_rdp_job 100 (Suc 0) None) = Inr 0"
       "r_end (run_job os_rdp store_rdp_job 100 (Suc 0) None) = 102"
    by (simp_all add: rdp_run)
  show ?thesis
    unfolding run_and_process_def run impl_of_registry_rdp
    by (simp only: Let_def val sum.case loop prod.case option.case apply_rules_no_rule)
qed

lemma tagged_pipeline:
  "run_and_process os_rdp registry_demo 100 (Suc 0) orch_tagged =
     (Some (TypeError (quoted ''str'' @ '' object does not support item assignment'')),
      orch_tagged\<lparr> store :=
        append_output (r_store (run_job os_rdp store_tagged_job 100 (Suc 0) None)) 102 (Suc 0)
          ''system'' ''PARSER broken ERROR: bad input'' \<rparr>)"
proof -
  let ?s1 = "r_store (run_job os_rdp store_tagged_job 100 (Suc 0) None)"
  let ?s2 = "append_output ?s1 102 (Suc 0) ''system'' ''PARSER broken ERROR: bad input''"
  let ?outs = "fetch_outputs ?s1 (Suc 0) None"
  let ?r = "JObj [(''rdp_auth_success'', JBool True)]"
  let ?e = "TypeError (quoted ''str'' @ '' object does not support item assignment'')"
  have hit: "parser_rdp_check ?outs = Inr ?r"
    by (simp only: tagged_outs rdp_check_hit)
  have step1: "parser_step (Suc 0) 102 ?outs (''broken'', parser_raising) [] ?s1 = (None, [], ?s2)"
    by (simp add: parser_step_def parser_raising_def)
  have step2: "parser_step (Suc 0) 102 ?outs (''rdp_check'', parser_rdp_check) [] ?s2 =
      (Some ?e, [(''rdp_check'', ?r)], ?s2)"
    unfolding parser_step_def
    by (simp only: fst_conv snd_conv hit Let_def sum.case prod.case)
       (simp add: tagged_ran_job set_parser_result_def)
  have loop: "run_parsers (Suc 0) 102 ?outs
        [(''broken'', parser_raising), (''rdp_check'', parser_rdp_check)] [] ?s1 =
      (Some ?e, [(''rdp_check'', ?r)], ?s2)"
    by (simp only: run_parsers.simps step1 step2 prod.case option.case)
  have run: "run_job os_rdp (store orch_tagged) 100 (Suc 0) None =
      run_job os_rdp store_tagged_job 100 (Suc 0) None"
    by (simp add: orch_tagged_def orchestrator_init_def)
  have val: "r_value (run_job os_rdp store_tagged_job 100 (Suc 0) None) = Inr 0"
       "r_end (run_job os_rdp store_tagged_job 100 (Suc 0) None) = 102"
    by (simp_all add: tagged_run)
  show ?thesis
    unfolding run_and_process_def run impl_of_registry_demo
    by (simp only: Let_def val sum.case loop prod.case option.case)
qed

lemma denied_pipeline:
  "run_and_process os_denied registry_demo 100 (Suc 0) orch_rdp =
     (None, orch_rdp\<lparr> store :=
        update_job_status
          (append_output (update_job_status store_rdp_job 100 (Suc 0) ''running'' None None)
             100 (Suc 0) ''system'' ''ERROR during run: [Errno 13] Permission denied'')
          100 (Suc 0) ''failed'' None None \<rparr>)"
  by (simp add: run_and_process_def run_job_def orch_rdp_def orchestrator_init_def rdp_job
      os_denied_def Let_def)

subsection \<open>Isolation of analyzers and the stored exit code\<close>

text \<open>
  C7, as the program has it. Take a job whose run returned and whose meta has no
  \<^verbatim>\<open>parsers\<close> entry or a dictionary there. For every analyzer of the registry that
  raises on the job's outputs: a \<^verbatim>\<open>system\<close> line naming that analyzer is in the job's
  output, every analyzer that returns a true result on the same outputs has it stored
  under its name in the \<^verbatim>\<open>parsers\<close> dictionary of the job's meta, and the job's status
  is the one the run left. This holds whether or not the rule application that follows
  the analyzers raises.
\<close>

theorem analyzer_failure_is_isolated:
  fixes os reg t0 job_id orch
  defines "rj \<equiv> run_job os (store orch) t0 job_id None"
  defines "outs \<equiv> fetch_outputs (r_store rj) job_id None"
  defines "final \<equiv> store (snd (run_and_process os reg t0 job_id orch))"
  assumes returned: "r_value rj = Inr exit_code"
      and job: "get_job (store orch) job_id = Some job"
      and slot: "parsers_slot_ok (j_meta job)"
      and raising: "(name, parser) \<in> set (DAList.impl_of reg)" "parser outs = Inl e"
  shows "system_line final job_id (''PARSER '' @ name @ '' ERROR: '' @ exn_str e)
       \<and> (\<forall>(n, p) \<in> set (DAList.impl_of reg). \<forall>v. p outs = Inr v \<and> json_truthy v \<longrightarrow>
            (\<exists>j. get_job final job_id = Some j \<and> parser_entry (j_meta j) n = Some v))
       \<and> map_option j_status (get_job final job_id) = map_option j_status (get_job (r_store rj) job_id)"
proof -
  obtain job0 job1 where rj_job: "get_job (store orch) job_id = Some job0"
      "get_job (r_store rj) job_id = Some job1" "j_meta job1 = j_meta job0"
  proof -
    have "r_value (run_job os (store orch) t0 job_id None) = Inr exit_code"
      using returned by (simp add: rj_def)
    then obtain a b where "get_job (store orch) job_id = Some a"
        "get_job (r_store (run_job os (store orch) t0 job_id None)) job_id = Some b"
        "j_meta b = j_meta a"
      by (rule run_job_returned)
    then show ?thesis
      using that by (simp add: rj_def)
  qed
  have slot1: "parsers_slot_ok (j_meta job1)"
    using rj_job job slot by simp
  have names: "distinct (map fst (DAList.impl_of reg))"
    by simp
  obtain prs' s' job' where loop:
    "run_parsers job_id (r_end rj) outs (DAList.impl_of reg) [] (r_store rj) = (None, prs', s')"
    "get_job s' job_id = Some job'"
    "j_status job' = j_status job1"
    "\<And>n p e. (n, p) \<in> set (DAList.impl_of reg) \<Longrightarrow> p outs = Inl e \<Longrightarrow>
          system_line s' job_id (''PARSER '' @ n @ '' ERROR: '' @ exn_str e)"
    "\<And>n p v. distinct (map fst (DAList.impl_of reg)) \<Longrightarrow> (n, p) \<in> set (DAList.impl_of reg) \<Longrightarrow>
             p outs = Inr v \<Longrightarrow> json_truthy v \<Longrightarrow>
             parser_entry (j_meta job') n = Some v \<and> map_of prs' n = Some v"
    using run_parsers_ok [OF rj_job(2) slot1, where now = "r_end rj" and outs = outs
        and reg = "DAList.impl_of reg" and prs = "[]"]
    by (elim exE conjE) blast
  let ?o1 = "orch\<lparr> store := s' \<rparr>"
  have res: "run_and_process os reg t0 job_id orch = apply_rules job_id (r_end rj) prs' ?o1"
    using returned loop(1)
    by (simp add: run_and_process_def Let_def rj_def [symmetric] outs_def [symmetric])
  have ext: "store_extends s' final"
    using extends_apply_rules [of ?o1 job_id "r_end rj" prs'] by (simp add: final_def res)
  have final_job: "get_job final job_id = Some job'"
    using get_job_extends [OF ext loop(2)] .
  have line: "system_line final job_id (''PARSER '' @ name @ '' ERROR: '' @ exn_str e)"
    using system_line_extends [OF ext loop(4) [OF raising]] .
  have merged: "\<forall>(n, p) \<in> set (DAList.impl_of reg). \<forall>v. p outs = Inr v \<and> json_truthy v \<longrightarrow>
            (\<exists>j. get_job final job_id = Some j \<and> parser_entry (j_meta j) n = Some v)"
    using loop(5) [OF names] final_job by auto
  show ?thesis
    using line merged by (simp add: final_job rj_job(2) loop(3))
qed

text \<open>
  C7 on the run above, with the registry \<^const>\<open>registry_demo\<close>: its first analyzer raises
  \<^verbatim>\<open>ValueError('bad input')\<close>, its second is \<^const>\<open>parser_rdp_check\<close>. The line naming
  the first is in the output, the result of the second is in the meta, and the job
  is still \<^verbatim>\<open>finished\<close>.
\<close>

theorem analyzer_failure_is_isolated_witness:
  "system_line (store (snd (run_and_process os_rdp registry_demo 100 1 orch_rdp))) 1
        ''PARSER broken ERROR: bad input''
   \<and> (\<exists>j. get_job (store (snd (run_and_process os_rdp registry_demo 100 1 orch_rdp))) 1 = Some j
          \<and> parser_entry (j_meta j) ''rdp_check'' = Some (JObj [(''rdp_auth_success'', JBool True)]))
   \<and> map_option j_status (get_job (store (snd (run_and_process os_rdp registry_demo 100 1 orch_rdp))) 1)
       = Some ''finished''"
proof -
  let ?job = "\<lparr> j_id = Suc 0, j_created_at = 100, j_updated_at = 100, j_name = ''rdp'',
             j_command = [JStr ''xfreerdp'', JStr ''/v:10.0.0.5'', JStr ''+auth-only''],
             j_cwd = [], j_env = [], j_status = ''pending'',
             j_exit_code = None, j_meta = [(''phase'', JStr ''check'')] \<rparr>"
  let ?outs = "fetch_outputs (r_store (run_job os_rdp (store orch_rdp) 100 (Suc 0) None)) (Suc 0) None"
  have st: "store orch_rdp = store_rdp_job"
    by (simp add: orch_rdp_def orchestrator_init_def)
  have ret: "r_value (run_job os_rdp (store orch_rdp) 100 (Suc 0) None) = Inr 0"
    by (simp add: st rdp_run)
  have job: "get_job (store orch_rdp) (Suc 0) = Some ?job"
    by (simp add: st rdp_job)
  have slot: "parsers_slot_ok (j_meta ?job)"
    by (simp add: parsers_slot_ok_def)
  have mem: "(''broken'', parser_raising) \<in> set (DAList.impl_of registry_demo)"
    by (simp add: impl_of_registry_demo)
  have raising: "parser_raising ?outs = Inl (ValueError ''bad input'')"
    by (simp add: parser_raising_def)
  have hit: "parser_rdp_check ?outs = Inr (JObj [(''rdp_auth_success'', JBool True)])"
    by (simp only: st rdp_outs rdp_check_hit)
  have ran: "map_option j_status (get_job (r_store (run_job os_rdp (store orch_rdp) 100 (Suc 0) None)) (Suc 0))
      = Some ''finished''"
    by (simp add: st rdp_ran_job)
  show ?thesis
    using analyzer_failure_is_isolated [OF ret job slot mem raising] hit ran
    by (simp add: impl_of_registry_demo)
qed

text \<open>
  C7 as stated, for every job, fails in two ways. The job of \<^const>\<open>store_tagged_job\<close>
  was created with the string \<^verbatim>\<open>'rdp_check'\<close> under \<^verbatim>\<open>parsers\<close> in its meta. Its run
  returns; the first analyzer raises and its line is appended; the second returns a true
  result, and storing it raises \<^verbatim>\<open>TypeError\<close> outside the \<^verbatim>\<open>try\<close>: the task ends with
  that exception and the result is not in the job's meta, which is as it was. And for a
  job whose run itself raises (the command may not be executed), no analyzer is called:
  the only \<^verbatim>\<open>system\<close> line is the one of the failed run, none names the analyzer that
  raises on every input.
\<close>

theorem analyzer_isolation_counterexample:
  "fst (run_and_process os_rdp registry_demo 100 1 orch_tagged) =
       Some (TypeError (quoted ''str'' @ '' object does not support item assignment''))
   \<and> system_line (store (snd (run_and_process os_rdp registry_demo 100 1 orch_tagged))) 1
        ''PARSER broken ERROR: bad input''
   \<and> parser_rdp_check
        (fetch_outputs (r_store (run_job os_rdp (store orch_tagged) 100 1 None)) 1 None) =
       Inr (JObj [(''rdp_auth_success'', JBool True)])
   \<and> map_option j_meta
        (get_job (store (snd (run_and_process os_rdp registry_demo 100 1 orch_tagged))) 1) =
       Some [(''parsers'', JStr ''rdp_check'')]
   \<and> (\<exists>j. get_job (store (snd (run_and_process os_rdp registry_demo 100 1 orch_tagged))) 1 = Some j
          \<and> parser_entry (j_meta j) ''rdp_check'' = None)
   \<and> parser_raising [] = Inl (ValueError ''bad input'')
   \<and> new_system_lines store_rdp_job
        (store (snd (run_and_process os_denied registry_demo 100 1 orch_rdp))) =
       [(1, ''ERROR during run: [Errno 13] Permission denied'')]
   \<and> \<not> system_line (store (snd (run_and_process os_denied registry_demo 100 1 orch_rdp))) 1
          ''PARSER broken ERROR: bad input''"
proof -
  have st: "store orch_tagged = store_tagged_job"
    by (simp add: orch_tagged_def orchestrator_init_def)
  have hit: "parser_rdp_check
        (fetch_outputs (r_store (run_job os_rdp (store orch_tagged) 100 (Suc 0) None)) (Suc 0) None) =
       Inr (JObj [(''rdp_auth_success'', JBool True)])"
    by (simp only: st tagged_outs rdp_check_hit)
  have line: "system_line
       (append_output (r_store (run_job os_rdp store_tagged_job 100 (Suc 0) None)) 102 (Suc 0)
          ''system'' ''PARSER broken ERROR: bad input'') (Suc 0) ''PARSER broken ERROR: bad input''"
    by (rule system_line_append_output)
  have outs: "outputs store_rdp_job = []"
    by (simp add: store_rdp_job_def create_job_def empty_store_def)
  have denied: "outputs (store (snd (run_and_process os_denied registry_demo 100 (Suc 0) orch_rdp))) =
      [\<lparr> o_id = Suc 0, o_job_id = Suc 0, o_created_at = 100, o_source = ''system'',
          o_line = ''ERROR during run: [Errno 13] Permission denied'' \<rparr>]"
    by (simp add: denied_pipeline) (simp add: append_output_def outs store_rdp_job_def
        create_job_def empty_store_def)
  show ?thesis
    using hit line
    by (simp add: tagged_pipeline tagged_ran_job parser_entry_def parser_raising_def
        new_system_lines_def system_line_def denied outs)
qed

text \<open>
  C2. The run above ends with exit code 0: the supervisor stores status
  \<^verbatim>\<open>finished\<close> and exit code 0. The orchestrator then attaches the result of
  \<^const>\<open>parser_rdp_check\<close> with \<^verbatim>\<open>update_job_status(job_id, job['status'], meta=meta)\<close>,
  which passes no exit code: the job is left \<^verbatim>\<open>finished\<close> with no stored exit code,
  so that a finished job does not have exit code 0.
\<close>

theorem run_and_process_finished_without_exit_code:
  "map_option j_status (get_job (r_store (run_job os_rdp store_rdp_job 100 1 None)) 1) = Some ''finished''
   \<and> map_option j_exit_code (get_job (r_store (run_job os_rdp store_rdp_job 100 1 None)) 1) = Some (Some 0)
   \<and> map_option j_status
       (get_job (store (snd (run_and_process os_rdp registry_rdp 100 1 orch_rdp))) 1)
     = Some ''finished''
   \<and> map_option j_exit_code
       (get_job (store (snd (run_and_process os_rdp registry_rdp 100 1 orch_rdp))) 1)
     = Some None"
  by (simp add: rdp_pipeline get_job_update_job_status rdp_ran_job)

text \<open>
  C9. \<^const>\<open>update_job_status\<close> writes its exit code argument into the row of the job,
  whatever the row held: called without one (\<^const>\<open>None\<close>), it leaves the job with no
  exit code. So for a job whose run returned, whose meta has no \<^verbatim>\<open>parsers\<close> entry or
  a dictionary there, and a registry with an analyzer that returns a true result on
  the job's outputs: the exit code that the supervisor stored is gone once the
  orchestrator has attached the results.
\<close>

theorem update_job_status_overwrites_exit_code:
  fixes os reg t0 job_id orch
  defines "rj \<equiv> run_job os (store orch) t0 job_id None"
  defines "outs \<equiv> fetch_outputs (r_store rj) job_id None"
  defines "final \<equiv> store (snd (run_and_process os reg t0 job_id orch))"
  assumes returned: "r_value rj = Inr exit_code"
      and job: "get_job (store orch) job_id = Some job"
      and slot: "parsers_slot_ok (j_meta job)"
      and hit: "(name, parser) \<in> set (DAList.impl_of reg)" "parser outs = Inr v" "json_truthy v"
  shows "map_option j_exit_code (get_job (update_job_status s now k status ec meta) k)
           = map_option (\<lambda>_. ec) (get_job s k)
       \<and> map_option j_exit_code (get_job (r_store rj) job_id) = Some (Some exit_code)
       \<and> map_option j_exit_code (get_job final job_id) = Some None"
proof -
  obtain job0 job1 where rj_job: "get_job (store orch) job_id = Some job0"
      "get_job (r_store rj) job_id = Some job1" "j_meta job1 = j_meta job0"
      "j_exit_code job1 = Some exit_code"
  proof -
    have "r_value (run_job os (store orch) t0 job_id None) = Inr exit_code"
      using returned by (simp add: rj_def)
    then obtain a b where "get_job (store orch) job_id = Some a"
        "get_job (r_store (run_job os (store orch) t0 job_id None)) job_id = Some b"
        "j_meta b = j_meta a" "j_exit_code b = Some exit_code"
      by (rule run_job_returned)
    then show ?thesis
      using that by (simp add: rj_def)
  qed
  have slot1: "parsers_slot_ok (j_meta job1)"
    using rj_job job slot by simp
  obtain prs' s' job' where loop:
    "run_parsers job_id (r_end rj) outs (DAList.impl_of reg) [] (r_store rj) = (None, prs', s')"
    "get_job s' job_id = Some job'"
    "\<And>n p v. (n, p) \<in> set (DAList.impl_of reg) \<Longrightarrow> p outs = Inr v \<Longrightarrow> json_truthy v \<Longrightarrow>
       j_exit_code job' = None"
    using run_parsers_ok [OF rj_job(2) slot1, where now = "r_end rj" and outs = outs
        and reg = "DAList.impl_of reg" and prs = "[]"]
    by (elim exE conjE) blast
  let ?o1 = "orch\<lparr> store := s' \<rparr>"
  have res: "run_and_process os reg t0 job_id orch = apply_rules job_id (r_end rj) prs' ?o1"
    using returned loop(1)
    by (simp add: run_and_process_def Let_def rj_def [symmetric] outs_def [symmetric])
  have ext: "store_extends s' final"
    using extends_apply_rules [of ?o1 job_id "r_end rj" prs'] by (simp add: final_def res)
  have final_job: "get_job final job_id = Some job'"
    using get_job_extends [OF ext loop(2)] .
  have erased: "j_exit_code job' = None"
    using loop(3) [OF hit] .
  have ledger: "map_option j_exit_code (get_job (update_job_status s now k status ec meta) k)
           = map_option (\<lambda>_. ec) (get_job s k)"
    by (cases "get_job s k"; cases meta) (simp_all add: get_job_update_job_status)
  show ?thesis
    using ledger by (simp add: final_job erased rj_job(2,4))
qed

text \<open>
  C9 on the run above: a call without exit code on the pending job, exit code 0 after
  the supervisor, none after the orchestrator.
\<close>

theorem update_job_status_overwrites_exit_code_witness:
  "map_option j_exit_code (get_job (update_job_status store_rdp_job 105 1 ''running'' None None) 1)
     = Some None
   \<and> map_option j_exit_code (get_job (r_store (run_job os_rdp (store orch_rdp) 100 1 None)) 1)
       = Some (Some 0)
   \<and> map_option j_exit_code
        (get_job (store (snd (run_and_process os_rdp registry_demo 100 1 orch_rdp))) 1) = Some None"
proof -
  let ?job = "\<lparr> j_id = Suc 0, j_created_at = 100, j_updated_at = 100, j_name = ''rdp'',
             j_command = [JStr ''xfreerdp'', JStr ''/v:10.0.0.5'', JStr ''+auth-only''],
             j_cwd = [], j_env = [], j_status = ''pending'',
             j_exit_code = None, j_meta = [(''phase'', JStr ''check'')] \<rparr>"
  let ?outs = "fetch_outputs (r_store (run_job os_rdp (store orch_rdp) 100 (Suc 0) None)) (Suc 0) None"
  have st: "store orch_rdp = store_rdp_job"
    by (simp add: orch_rdp_def orchestrator_init_def)
  have ret: "r_value (run_job os_rdp (store orch_rdp) 100 (Suc 0) None) = Inr 0"
    by (simp add: st rdp_run)
  have job: "get_job (store orch_rdp) (Suc 0) = Some ?job"
    by (simp add: st rdp_job)
  have slot: "parsers_slot_ok (j_meta ?job)"
    by (simp add: parsers_slot_ok_def)
  have mem: "(''rdp_check'', parser_rdp_check) \<in> set (DAList.impl_of registry_demo)"
    by (simp add: impl_of_registry_demo)
  have hit: "parser_rdp_check ?outs = Inr (JObj [(''rdp_auth_success'', JBool True)])"
    by (simp only: st rdp_outs rdp_check_hit)
  have tr: "json_truthy (JObj [(''rdp_auth_success'', JBool True)])"
    by simp
  show ?thesis
    using update_job_status_overwrites_exit_code [OF ret job slot mem hit tr,
        where s = store_rdp_job and now = 105 and k = "Suc 0" and status = "''running''"
          and ec = None and meta = None]
    by (simp add: rdp_job)
qed


end
